theory Spec2Isabelle
  imports Complex_Main "HOL-Library.Char_ord" "HOL-Library.List_Lexorder"
begin

section \<open>EnCh: entity checker app (apps/ench/ench.py)\<close>

text \<open>
  The app is a callback module for a home-automation runtime. It has three entry points:
  \<^verbatim>\<open>initialize\<close>, which reads the app arguments, fills \<^verbatim>\<open>self.cfg\<close> and schedules the checks,
  and the two scheduled callbacks \<^verbatim>\<open>check_battery\<close> and \<^verbatim>\<open>check_unavailable\<close>.

  Modelling decisions:
  \<^item> Python strings are byte lists (\<open>string\<close>), non-ASCII literals of the source are written
    as their UTF-8 bytes. Byte-wise lexicographic order coincides with Python's code point
    order on UTF-8 text. \<^verbatim>\<open>str.lower\<close> is modelled on the ASCII letters only.
  \<^item> Dynamically typed values (YAML scalars of the configuration, state attributes) are
    \<open>pyval\<close>. A finite float is its exact value with its printed form; the rounded
    product of a float and 60 is the host's. A list or dict as an option or attribute
    value is outside the model; where the checks meet one it acts as a text that names no
    bad state does (truthy unless empty, no order with an integer).
  \<^item> Every external effect is an entry of a trace (\<open>effect list\<close>), in program order; an
    exception is a value of type \<open>error\<close>, and the trace produced before it is kept.
  \<^item> The host runtime (state store, clock, name lookup, date conversion) is a record of
    parameters. A lookup of one entity's state can return the state, return \<^verbatim>\<open>None\<close> or
    raise; the lookup in the loop of a check and the later one for the time of the last
    update are answered independently. The other calls are taken to return normally.
\<close>

subsection \<open>Python values\<close>

datatype pyfloat = Finite rat string | PosInf | NegInf | NaN

datatype pyval = PyNone | PyBool bool | PyInt int | PyFloat pyfloat | PyStr string

datatype error =
  TypeError | KeyError | ValueError | AttributeError | NameError | OverflowError

text \<open>Truth value testing (\<^verbatim>\<open>bool(x)\<close>, \<^verbatim>\<open>if x\<close>, \<^verbatim>\<open>x and y\<close>).\<close>

fun truthy :: "pyval \<Rightarrow> bool" where
  "truthy PyNone = False"
| "truthy (PyBool b) = b"
| "truthy (PyInt n) = (n \<noteq> 0)"
| "truthy (PyFloat (Finite q s)) = (q \<noteq> 0)"
| "truthy (PyFloat f) = True"
| "truthy (PyStr s) = (s \<noteq> [])"

definition digits :: string where
  "digits = ''0123456789''"

fun str_nat :: "nat \<Rightarrow> string" where
  "str_nat n = (if n < 10 then [digits ! n] else str_nat (n div 10) @ [digits ! (n mod 10)])"

declare str_nat.simps [simp del]

definition str_int :: "int \<Rightarrow> string" where
  "str_int i = (if i < 0 then ''-'' @ str_nat (nat (- i)) else str_nat (nat i))"

text \<open>\<^verbatim>\<open>str(x)\<close> and f-string formatting of a scalar.\<close>

fun py_str :: "pyval \<Rightarrow> string" where
  "py_str PyNone = ''None''"
| "py_str (PyBool b) = (if b then ''True'' else ''False'')"
| "py_str (PyInt n) = str_int n"
| "py_str (PyFloat (Finite q s)) = s"
| "py_str (PyFloat PosInf) = ''inf''"
| "py_str (PyFloat NegInf) = ''-inf''"
| "py_str (PyFloat NaN) = ''nan''"
| "py_str (PyStr s) = s"

text \<open>
  \<^verbatim>\<open>x <= n\<close> for an integer \<open>n\<close>. A \<^verbatim>\<open>bool\<close> counts as 0 or 1, a float is compared by its
  exact value, nan compares false; \<^verbatim>\<open>None\<close> and \<^verbatim>\<open>str\<close> do not compare with \<^verbatim>\<open>int\<close>.
\<close>

fun py_le_int :: "pyval \<Rightarrow> int \<Rightarrow> error + bool" where
  "py_le_int (PyInt a) n = Inr (a \<le> n)"
| "py_le_int (PyBool b) n = Inr ((if b then 1 else 0) \<le> n)"
| "py_le_int (PyFloat (Finite q s)) n = Inr (q \<le> of_int n)"
| "py_le_int (PyFloat PosInf) n = Inr False"
| "py_le_int (PyFloat NegInf) n = Inr True"
| "py_le_int (PyFloat NaN) n = Inr False"
| "py_le_int PyNone n = Inl TypeError"
| "py_le_int (PyStr s) n = Inl TypeError"

text \<open>\<^verbatim>\<open>x.lower()\<close>, \<^verbatim>\<open>x.replace(".", "/")\<close>, \<^verbatim>\<open>sep.join(xs)\<close>.\<close>

definition lower_char :: "char \<Rightarrow> char" where
  "lower_char c =
     (if CHR ''A'' \<le> c \<and> c \<le> CHR ''Z'' then char_of (of_char c + (32::nat)) else c)"

definition lower :: "string \<Rightarrow> string" where
  "lower = map lower_char"

definition replace_dot :: "string \<Rightarrow> string" where
  "replace_dot = map (\<lambda>c. if c = CHR ''.'' then CHR ''/'' else c)"

fun join :: "string \<Rightarrow> string list \<Rightarrow> string" where
  "join sep [] = []"
| "join sep [x] = x"
| "join sep (x # y # ys) = x @ sep @ join sep (y # ys)"

text \<open>\<^verbatim>\<open>d.get(k)\<close> on a dict of scalars: \<^verbatim>\<open>None\<close> when the key is missing.\<close>

definition dict_get :: "(string \<times> pyval) list \<Rightarrow> string \<Rightarrow> pyval" where
  "dict_get d k = (case map_of d k of None \<Rightarrow> PyNone | Some v \<Rightarrow> v)"

subsection \<open>Constants of the module\<close>

definition APP_ICON :: string where
  "APP_ICON = [CHR 0xF0, CHR 0x9F, CHR 0x91, CHR 0xA9, CHR 0xE2, CHR 0x80, CHR 0x8D,
               CHR 0xE2, CHR 0x9A, CHR 0x95, CHR 0xEF, CHR 0xB8, CHR 0x8F]"

definition BATTERY_MIN_LEVEL :: int where
  "BATTERY_MIN_LEVEL = 20"

definition INTERVAL_BATTERY_MIN :: int where
  "INTERVAL_BATTERY_MIN = 180"

definition INTERVAL_UNAVAILABLE_MIN :: int where
  "INTERVAL_UNAVAILABLE_MIN = 60"

definition EXCLUDE :: "string list" where
  "EXCLUDE = [''binary_sensor.updater'', ''persistent_notification.config_entry_discovery'']"

definition BAD_STATES :: "pyval list" where
  "BAD_STATES = [PyStr ''unavailable'', PyStr ''unknown'']"

definition ICON_battery :: string where
  "ICON_battery = [CHR 0xF0, CHR 0x9F, CHR 0x94, CHR 0x8B]"

definition ICON_unavailable :: string where
  "ICON_unavailable = [CHR 0xE2, CHR 0x81, CHR 0x89, CHR 0xEF, CHR 0xB8, CHR 0x8F, CHR '' '']"

definition ICON_unknown :: string where
  "ICON_unknown = [CHR 0xE2, CHR 0x9D, CHR 0x93]"

definition ICON_warning :: string where
  "ICON_warning = [CHR 0xF0, CHR 0x9F, CHR 0xA7, CHR 0xA8]"

text \<open>\<^verbatim>\<open>ICONS[state]\<close>: only the two bad states (and \<^verbatim>\<open>battery\<close>) are keys.\<close>

definition ICONS :: "(string \<times> string) list" where
  "ICONS = [(''battery'', ICON_battery), (''unavailable'', ICON_unavailable),
            (''unknown'', ICON_unknown)]"

subsection \<open>Host runtime and app state\<close>

text \<open>
  The full state of one entity, as \<^verbatim>\<open>get_state(entity_id=e, attribute="all")\<close> returns it.
\<close>

record entity_state =
  state :: pyval
  attributes :: "(string \<times> pyval) list"
  last_updated :: string

type_synonym date = "nat \<times> nat \<times> nat"
type_synonym time = "nat \<times> nat \<times> nat"

text \<open>
  The host: \<open>states\<close> is the dict \<^verbatim>\<open>get_state()\<close> returns (entity id to full state, in the
  dict's iteration order), \<open>friendly_name\<close> and \<open>split_entity\<close> are the runtime's helpers,
  \<open>get_state_all\<close> answers \<^verbatim>\<open>get_state(entity_id=e, attribute="all")\<close> in the loop of a check and
  \<open>get_state_again\<close> the same call made for the time of the last update,
  \<open>to_local\<close> stands for \<^verbatim>\<open>datetime.fromisoformat(s).astimezone(tz)\<close> with the runtime's
  time zone, split in date (year, month, day) and time (hour, minute, second), \<open>today\<close>
  is \<^verbatim>\<open>self.date()\<close>, \<open>now\<close> is \<^verbatim>\<open>self.datetime()\<close> in seconds, \<open>int_of_str\<close> is
  Python's \<^verbatim>\<open>int\<close> on a string (\<open>None\<close> for a \<^verbatim>\<open>ValueError\<close>), and \<open>float_mul60\<close> is the
  floating point product with 60.
\<close>

text \<open>
  The answer to a lookup of one entity: its full state, \<^verbatim>\<open>None\<close>, or an exception with the
  text \<^verbatim>\<open>str(error)\<close>.
\<close>

datatype fetch = Found entity_state | NotFound | Raises error string

record host =
  states :: "(string \<times> entity_state) list"
  get_state_all :: "string \<Rightarrow> fetch"
  get_state_again :: "string \<Rightarrow> fetch"
  friendly_name :: "string \<Rightarrow> string"
  split_entity :: "string \<Rightarrow> string list"
  to_local :: "string \<Rightarrow> date \<times> time"
  today :: date
  now :: int
  int_of_str :: "string \<Rightarrow> int option"
  float_mul60 :: "pyfloat \<Rightarrow> pyfloat"

text \<open>
  \<^verbatim>\<open>self.cfg\<close>. The keys \<^verbatim>\<open>notify\<close> and \<^verbatim>\<open>show_friendly_name\<close> are set first and cannot
  be missing; the others are \<open>None\<close> until \<^verbatim>\<open>initialize\<close> has set them. The two
  sections are dicts from option name to integer.
\<close>

record cfg =
  notify :: pyval
  show_friendly_name :: bool
  battery :: "(string \<times> int) list option"
  unavailable :: "(string \<times> int) list option"
  exclude :: "string list option"
  units :: "(string \<times> string) list option"

text \<open>
  The calls an app can make on the runtime, as trace entries: \<^verbatim>\<open>adu.log(msg, icon)\<close> (the
  icon is \<open>None\<close> when the call gives none),
  \<^verbatim>\<open>call_service(service, message=msg)\<close>, \<^verbatim>\<open>run_every(callback, start, interval)\<close>,
  \<^verbatim>\<open>set_state(entity, state)\<close> and the construction of the logging helper.
\<close>

datatype check = CheckBattery | CheckUnavailable

datatype effect =
    Log string "string option"
  | CallService string string
  | RunEvery check int int
  | SetState string pyval
  | NewADutils string cfg string

text \<open>
  One run of a check: the trace, the value of \<^verbatim>\<open>self.cfg\<close> afterwards, and either the
  exception that ended the run or the final \<^verbatim>\<open>results\<close> list.
\<close>

record run =
  effects :: "effect list"
  cfg_after :: cfg
  outcome :: "error + string list"

subsection \<open>Helpers of the class\<close>

definition hl :: "string \<Rightarrow> string" where
  "hl text = [CHR 0x1B] @ ''[1m'' @ text @ [CHR 0x1B] @ ''[0m''"

definition highlight_entity :: "host \<Rightarrow> string \<Rightarrow> error + string" where
  "highlight_entity h entity =
     (case split_entity h entity of
        [domain, entity'] \<Rightarrow> Inr (domain @ ''.'' @ hl entity')
      | _ \<Rightarrow> Inl ValueError)"

definition name :: "host \<Rightarrow> cfg \<Rightarrow> string \<Rightarrow> error + string" where
  "name h c entity =
     (if show_friendly_name c then Inr (friendly_name h entity) else highlight_entity h entity)"

definition pad :: "nat \<Rightarrow> nat \<Rightarrow> string" where
  "pad w n = replicate (w - length (str_nat n)) (CHR ''0'') @ str_nat n"

definition strftime_time :: "time \<Rightarrow> string" where
  "strftime_time t = (case t of (hh, mm, ss) \<Rightarrow> pad 2 hh @ '':'' @ pad 2 mm @ '':'' @ pad 2 ss)"

definition strftime_date :: "date \<Rightarrow> string" where
  "strftime_date d = (case d of (y, m, dd) \<Rightarrow> str_nat y @ ''-'' @ pad 2 m @ ''-'' @ pad 2 dd)"

text \<open>
  \<^verbatim>\<open>_to_localtime(entity, "last_updated")\<close>: the state is looked up again; on \<^verbatim>\<open>None\<close> the
  subscript raises.
\<close>

definition to_localtime :: "host \<Rightarrow> string \<Rightarrow> error + date \<times> time" where
  "to_localtime h entity =
     (case get_state_again h entity of
        Raises err msg \<Rightarrow> Inl err
      | NotFound \<Rightarrow> Inl TypeError
      | Found full \<Rightarrow> Inr (to_local h (last_updated full)))"

definition last_update :: "host \<Rightarrow> string \<Rightarrow> error + string" where
  "last_update h entity =
     (case to_localtime h entity of
        Inl err \<Rightarrow> Inl err
      | Inr (lu_date, lu_time) \<Rightarrow>
          Inr (if lu_date \<noteq> today h
               then strftime_time lu_time @ '' ('' @ strftime_date lu_date @ '')''
               else strftime_time lu_time))"

definition print_result :: "string \<Rightarrow> string list \<Rightarrow> string \<Rightarrow> effect" where
  "print_result chk entities reason =
     (if length entities > 0
      then Log (hl (str_nat (length entities) @ '' entities'') @ '' with '' @ hl reason @ ''!'')
               (Some APP_ICON)
      else Log (''no entities with '' @ reason @ '' found'') (Some APP_ICON))"

text \<open>
  The entities a check iterates: the keys of \<^verbatim>\<open>get_state()\<close> whose lowercased id is not in
  \<^verbatim>\<open>cfg["exclude"]\<close>, sorted. The filter is lazy, so \<^verbatim>\<open>cfg["exclude"]\<close> is read only when
  there is a key to test.
\<close>

definition entities :: "host \<Rightarrow> cfg \<Rightarrow> error + string list" where
  "entities h c =
     (if states h = [] then Inr []
      else case exclude c of
             None \<Rightarrow> Inl KeyError
           | Some ex \<Rightarrow> Inr (sort (filter (\<lambda>x. lower x \<notin> set ex) (map fst (states h)))))"

text \<open>
  The notification step shared by both checks:
  \<^verbatim>\<open>if self.cfg["notify"] and results: self.call_service(...)\<close>.
\<close>

definition send_notification :: "cfg \<Rightarrow> string \<Rightarrow> string list \<Rightarrow> effect list" where
  "send_notification c title results =
     (if truthy (notify c) \<and> results \<noteq> []
      then [CallService (replace_dot (py_str (notify c)))
              (title @ '' ('' @ str_nat (length results) @ ''): '' @ join '', '' results)]
      else [])"

subsection \<open>The try statement of the loops\<close>

text \<open>
  A local variable of a loop is unbound until its first assignment.
\<close>

datatype 'a var = Unbound | Bound 'a

text \<open>
  Both loops start with
  \<^verbatim>\<open>try: attrs = self.get_state(entity_id=entity, attribute="all")\<close>
  \<^verbatim>\<open>except TypeError as error: self.adu.log(f"Failed to get state for {entity}: {error}")\<close>.
  A \<^verbatim>\<open>TypeError\<close> is logged and the variable keeps what it held (the state of the entity
  before, or nothing in the first iteration); any other exception ends the run. The result
  is the lines logged and the variable afterwards (\<open>Bound None\<close> is \<^verbatim>\<open>None\<close>).
\<close>

definition try_get_state ::
  "host \<Rightarrow> entity_state option var \<Rightarrow> string \<Rightarrow> effect list \<times> (error + entity_state option var)"
where
  "try_get_state h attrs entity =
     (case get_state_all h entity of
        Found full \<Rightarrow> ([], Inr (Bound (Some full)))
      | NotFound \<Rightarrow> ([], Inr (Bound None))
      | Raises err msg \<Rightarrow>
          if err = TypeError
          then ([Log (''Failed to get state for '' @ entity @ '': '' @ msg) None], Inr attrs)
          else ([], Inl err))"

subsection \<open>check\_unavailable\<close>

text \<open>
  The loop body after the try statement, for the variable \<^verbatim>\<open>attributes\<close> as it stands and
  the results so far: \<open>Inr None\<close> when the entity is skipped, \<open>Inr (Some l)\<close> when it is
  appended to the results and \<open>l\<close> is logged. The f-string is evaluated left to right, then
  the icon is looked up.
\<close>

definition unavailable_body ::
  "host \<Rightarrow> cfg \<Rightarrow> entity_state option var \<Rightarrow> string list \<Rightarrow> string \<Rightarrow> error + effect option"
where
  "unavailable_body h c attrs results entity =
     (case attrs of
        Unbound \<Rightarrow> Inl NameError
      | Bound None \<Rightarrow> Inl AttributeError
      | Bound (Some full) \<Rightarrow>
          if state full \<in> set BAD_STATES \<and> entity \<notin> set results
          then (case name h c entity of
                  Inl err \<Rightarrow> Inl err
                | Inr nm \<Rightarrow>
                   (case last_update h entity of
                      Inl err \<Rightarrow> Inl err
                    | Inr lu \<Rightarrow>
                       (case map_of ICONS (py_str (state full)) of
                          None \<Rightarrow> Inl KeyError
                        | Some icon \<Rightarrow>
                            Inr (Some (Log (nm @ '' is '' @ hl (py_str (state full))
                                            @ '' | last update: '' @ lu) (Some icon))))))
          else Inr None)"

text \<open>
  One iteration: the lines logged, and either the exception or the variable afterwards
  with the flag that says whether the entity was appended to the results.
\<close>

definition unavailable_step ::
  "host \<Rightarrow> cfg \<Rightarrow> entity_state option var \<Rightarrow> string list \<Rightarrow> string
     \<Rightarrow> effect list \<times> (error + entity_state option var \<times> bool)"
where
  "unavailable_step h c attrs results entity =
     (case try_get_state h attrs entity of
        (ls, Inl err) \<Rightarrow> (ls, Inl err)
      | (ls, Inr attrs') \<Rightarrow>
         (case unavailable_body h c attrs' results entity of
            Inl err \<Rightarrow> (ls, Inl err)
          | Inr None \<Rightarrow> (ls, Inr (attrs', False))
          | Inr (Some l) \<Rightarrow> (ls @ [l], Inr (attrs', True))))"

fun unavailable_loop ::
  "host \<Rightarrow> cfg \<Rightarrow> string list \<Rightarrow> entity_state option var \<Rightarrow> string list \<Rightarrow> effect list
     \<Rightarrow> effect list \<times> (error + string list)"
where
  "unavailable_loop h c [] attrs results tr = (tr, Inr results)"
| "unavailable_loop h c (entity # rest) attrs results tr =
     (case unavailable_step h c attrs results entity of
        (ls, Inl err) \<Rightarrow> (tr @ ls, Inl err)
      | (ls, Inr (attrs', flagged)) \<Rightarrow>
          unavailable_loop h c rest attrs'
            (if flagged then results @ [entity] else results) (tr @ ls))"

definition check_unavailable :: "host \<Rightarrow> cfg \<Rightarrow> run" where
  "check_unavailable h c =
     (let header = Log ''Checking entities for unavailable/unknown state...'' (Some APP_ICON) in
      case entities h c of
        Inl err \<Rightarrow> \<lparr>effects = [header], cfg_after = c, outcome = Inl err\<rparr>
      | Inr es \<Rightarrow>
         (case unavailable_loop h c es Unbound [] [] of
            (tr, Inl err) \<Rightarrow> \<lparr>effects = header # tr, cfg_after = c, outcome = Inl err\<rparr>
          | (tr, Inr results) \<Rightarrow>
              \<lparr>effects = header # tr
                  @ send_notification c (APP_ICON @ '' Unavailable entities'') results
                  @ [print_result ''unavailable'' results ''unavailable/unknown state''],
               cfg_after = c, outcome = Inr results\<rparr>))"

subsection \<open>check\_battery\<close>

text \<open>
  \<^verbatim>\<open>int(x)\<close>: a \<^verbatim>\<open>bool\<close> or \<^verbatim>\<open>int\<close> gives its value, a finite float is truncated towards zero,
  a string is parsed, \<^verbatim>\<open>None\<close> is a \<^verbatim>\<open>TypeError\<close>.
\<close>

definition py_int :: "host \<Rightarrow> pyval \<Rightarrow> error + int" where
  "py_int h x =
     (case x of
        PyNone \<Rightarrow> Inl TypeError
      | PyBool b \<Rightarrow> Inr (if b then 1 else 0)
      | PyInt n \<Rightarrow> Inr n
      | PyFloat f \<Rightarrow>
         (case f of
            Finite q s \<Rightarrow> Inr (if 0 \<le> q then \<lfloor>q\<rfloor> else \<lceil>q\<rceil>)
          | PosInf \<Rightarrow> Inl OverflowError
          | NegInf \<Rightarrow> Inl OverflowError
          | NaN \<Rightarrow> Inl ValueError)
      | PyStr s \<Rightarrow> (case int_of_str h s of None \<Rightarrow> Inl ValueError | Some n \<Rightarrow> Inr n))"

definition arrow :: string where
  "arrow = [CHR 0xE2, CHR 0x86, CHR 0x92]"

text \<open>
  The loop body after the try statement, for the variable \<^verbatim>\<open>attrs\<close> as it stands.
\<close>

definition battery_body ::
  "host \<Rightarrow> cfg \<Rightarrow> entity_state option var \<Rightarrow> string \<Rightarrow> error + effect option"
where
  "battery_body h c attrs entity =
     (case attrs of
        Unbound \<Rightarrow> Inl NameError
      | Bound None \<Rightarrow> Inl TypeError
      | Bound (Some full) \<Rightarrow>
          let battery_level = dict_get (attributes full) ''battery_level'' in
          if \<not> truthy battery_level then Inr None
          else (case battery c of
                  None \<Rightarrow> Inl KeyError
                | Some section \<Rightarrow>
                   (case map_of section ''min_level'' of
                      None \<Rightarrow> Inl KeyError
                    | Some min_level \<Rightarrow>
                       (case py_le_int battery_level min_level of
                          Inl err \<Rightarrow> Inl err
                        | Inr False \<Rightarrow> Inr None
                        | Inr True \<Rightarrow>
                           (case name h c entity of
                              Inl err \<Rightarrow> Inl err
                            | Inr nm \<Rightarrow>
                               (case py_int h battery_level of
                                  Inl err \<Rightarrow> Inl err
                                | Inr level \<Rightarrow>
                                   (case last_update h entity of
                                      Inl err \<Rightarrow> Inl err
                                    | Inr lu \<Rightarrow>
                                       (case map_of ICONS ''battery'' of
                                          None \<Rightarrow> Inl KeyError
                                        | Some icon \<Rightarrow>
                                            Inr (Some (Log (nm @ '' has low ''
                                              @ hl (''battery '' @ arrow @ '' '' @ hl (str_int level))
                                              @ ''% | last update: '' @ lu) (Some icon)))))))))))"

definition battery_step ::
  "host \<Rightarrow> cfg \<Rightarrow> entity_state option var \<Rightarrow> string
     \<Rightarrow> effect list \<times> (error + entity_state option var \<times> bool)"
where
  "battery_step h c attrs entity =
     (case try_get_state h attrs entity of
        (ls, Inl err) \<Rightarrow> (ls, Inl err)
      | (ls, Inr attrs') \<Rightarrow>
         (case battery_body h c attrs' entity of
            Inl err \<Rightarrow> (ls, Inl err)
          | Inr None \<Rightarrow> (ls, Inr (attrs', False))
          | Inr (Some l) \<Rightarrow> (ls @ [l], Inr (attrs', True))))"

fun battery_loop ::
  "host \<Rightarrow> cfg \<Rightarrow> string list \<Rightarrow> entity_state option var \<Rightarrow> string list \<Rightarrow> effect list
     \<Rightarrow> effect list \<times> (error + string list)"
where
  "battery_loop h c [] attrs results tr = (tr, Inr results)"
| "battery_loop h c (entity # rest) attrs results tr =
     (case battery_step h c attrs entity of
        (ls, Inl err) \<Rightarrow> (tr @ ls, Inl err)
      | (ls, Inr (attrs', flagged)) \<Rightarrow>
          battery_loop h c rest attrs'
            (if flagged then results @ [entity] else results) (tr @ ls))"

definition check_battery :: "host \<Rightarrow> cfg \<Rightarrow> run" where
  "check_battery h c =
     (let header = Log ''Checking entities for low battery levels...'' (Some APP_ICON) in
      case entities h c of
        Inl err \<Rightarrow> \<lparr>effects = [header], cfg_after = c, outcome = Inl err\<rparr>
      | Inr es \<Rightarrow>
         (case battery_loop h c es Unbound [] [] of
            (tr, Inl err) \<Rightarrow> \<lparr>effects = header # tr, cfg_after = c, outcome = Inl err\<rparr>
          | (tr, Inr results) \<Rightarrow>
              \<lparr>effects = header # tr
                  @ send_notification c (ICON_battery @ '' Battery low'') results
                  @ [print_result ''battery'' results ''low battery levels''],
               cfg_after = c, outcome = Inr results\<rparr>))"

subsection \<open>initialize\<close>

text \<open>
  The app arguments (\<^verbatim>\<open>self.args\<close>), loaded from YAML. \<open>None\<close> is a missing key. The value
  of \<^verbatim>\<open>notify\<close> and \<^verbatim>\<open>show_friendly_name\<close> is a scalar; the value of the other three keys
  is a scalar, a dict of scalars or a list of scalars.
\<close>

datatype cfgval = Scalar pyval | Section "(string \<times> pyval) list" | Items "pyval list"

record args =
  arg_notify :: "pyval option"
  arg_show_friendly_name :: "pyval option"
  arg_battery :: "cfgval option"
  arg_unavailable :: "cfgval option"
  arg_exclude :: "cfgval option"

text \<open>The result of \<^verbatim>\<open>initialize\<close>: the trace, \<^verbatim>\<open>self.cfg\<close> as it stands, the exception if any.\<close>

record init_run =
  trace :: "effect list"
  cfg_now :: cfg
  failed :: "error option"

fun cfg_truthy :: "cfgval option \<Rightarrow> bool" where
  "cfg_truthy None = False"
| "cfg_truthy (Some (Scalar v)) = truthy v"
| "cfg_truthy (Some (Section d)) = (d \<noteq> [])"
| "cfg_truthy (Some (Items xs)) = (xs \<noteq> [])"

text \<open>\<^verbatim>\<open>sub in s\<close> on strings.\<close>

fun contains :: "string \<Rightarrow> string \<Rightarrow> bool" where
  "contains sub [] = (sub = [])"
| "contains sub (y # ys) = (take (length sub) (y # ys) = sub \<or> contains sub ys)"

text \<open>
  \<^verbatim>\<open>key in x\<close>: a key of a dict, an element of a list, a substring of a string; any
  other scalar is not iterable.
\<close>

fun py_contains :: "string \<Rightarrow> cfgval \<Rightarrow> error + bool" where
  "py_contains key (Section d) = Inr (map_of d key \<noteq> None)"
| "py_contains key (Items xs) = Inr (PyStr key \<in> set xs)"
| "py_contains key (Scalar (PyStr s)) = Inr (contains key s)"
| "py_contains key (Scalar v) = Inl TypeError"

text \<open>\<^verbatim>\<open>x.get(key)\<close>: only a dict has the method.\<close>

fun section_get :: "cfgval \<Rightarrow> string \<Rightarrow> error + pyval" where
  "section_get (Section d) key = Inr (dict_get d key)"
| "section_get x key = Inl AttributeError"

text \<open>\<^verbatim>\<open>x * 60\<close>: a number is multiplied (a float by the host), a string is repeated.\<close>

fun py_mul60 :: "host \<Rightarrow> pyval \<Rightarrow> error + pyval" where
  "py_mul60 h (PyInt n) = Inr (PyInt (n * 60))"
| "py_mul60 h (PyBool b) = Inr (PyInt ((if b then 1 else 0) * 60))"
| "py_mul60 h (PyFloat f) = Inr (PyFloat (float_mul60 h f))"
| "py_mul60 h (PyStr s) = Inr (PyStr (concat (replicate 60 s)))"
| "py_mul60 h PyNone = Inl TypeError"

text \<open>
  The chain that both sections use to find \<^verbatim>\<open>interval_min\<close> (before \<^verbatim>\<open>int\<close> is applied):
  the key \<^verbatim>\<open>interval_min\<close>, else the old key \<^verbatim>\<open>interval\<close> times 60, else the default.
\<close>

definition interval_min_of :: "host \<Rightarrow> cfgval \<Rightarrow> int \<Rightarrow> error + pyval" where
  "interval_min_of h section dflt =
     (case py_contains ''interval_min'' section of
        Inl err \<Rightarrow> Inl err
      | Inr True \<Rightarrow> section_get section ''interval_min''
      | Inr False \<Rightarrow>
         (case py_contains ''interval'' section of
            Inl err \<Rightarrow> Inl err
          | Inr True \<Rightarrow>
             (case section_get section ''interval'' of
                Inl err \<Rightarrow> Inl err
              | Inr v \<Rightarrow> py_mul60 h v)
          | Inr False \<Rightarrow> Inr (PyInt dflt)))"

text \<open>\<^verbatim>\<open>battery_cfg.get("min_level", BATTERY_MIN_LEVEL)\<close>.\<close>

fun min_level_of :: "cfgval \<Rightarrow> error + pyval" where
  "min_level_of (Section d) =
     Inr (case map_of d ''min_level'' of None \<Rightarrow> PyInt BATTERY_MIN_LEVEL | Some v \<Rightarrow> v)"
| "min_level_of x = Inl AttributeError"

definition init_start :: "args \<Rightarrow> cfg" where
  "init_start a =
     \<lparr>notify = (case arg_notify a of None \<Rightarrow> PyNone | Some v \<Rightarrow> v),
      show_friendly_name = (case arg_show_friendly_name a of None \<Rightarrow> True | Some v \<Rightarrow> truthy v),
      battery = None, unavailable = None, exclude = None, units = None\<rparr>"

text \<open>The block under \<^verbatim>\<open># battery check\<close>.\<close>

definition init_battery ::
  "host \<Rightarrow> args \<Rightarrow> cfg \<Rightarrow> effect list \<Rightarrow> error + cfg \<times> effect list" where
  "init_battery h a c tr =
     (case arg_battery a of
        None \<Rightarrow> Inr (c, tr)
      | Some battery_cfg \<Rightarrow>
         (case interval_min_of h battery_cfg INTERVAL_BATTERY_MIN of
            Inl err \<Rightarrow> Inl err
          | Inr v \<Rightarrow>
             (case py_int h v of
                Inl err \<Rightarrow> Inl err
              | Inr interval_min \<Rightarrow>
                 (case min_level_of battery_cfg of
                    Inl err \<Rightarrow> Inl err
                  | Inr w \<Rightarrow>
                     (case py_int h w of
                        Inl err \<Rightarrow> Inl err
                      | Inr min_level \<Rightarrow>
                          Inr (c\<lparr>battery := Some [(''interval_min'', interval_min),
                                                  (''min_level'', min_level)]\<rparr>,
                               tr @ [RunEvery CheckBattery (now h + 120) (interval_min * 60)]))))))"

text \<open>The block under \<^verbatim>\<open># unavailable check\<close>.\<close>

definition init_unavailable ::
  "host \<Rightarrow> args \<Rightarrow> cfg \<Rightarrow> effect list \<Rightarrow> error + cfg \<times> effect list" where
  "init_unavailable h a c tr =
     (if cfg_truthy (arg_unavailable a)
      then (case arg_unavailable a of
              None \<Rightarrow> Inr (c, tr)
            | Some states_cfg \<Rightarrow>
               (case interval_min_of h states_cfg INTERVAL_UNAVAILABLE_MIN of
                  Inl err \<Rightarrow> Inl err
                | Inr v \<Rightarrow>
                   (case py_int h v of
                      Inl err \<Rightarrow> Inl err
                    | Inr interval_min \<Rightarrow>
                        Inr (c\<lparr>unavailable := Some [(''interval_min'', interval_min)]\<rparr>,
                             tr @ [RunEvery CheckUnavailable (now h + 120) (interval_min * 60)]))))
      else Inr (c, tr))"

text \<open>
  \<^verbatim>\<open>[e.lower() for e in self.args.get("exclude", set())]\<close>: a list gives its elements, a
  dict its keys, a string its characters; only a string has \<^verbatim>\<open>lower\<close>.
\<close>

fun lower_all :: "pyval list \<Rightarrow> error + string list" where
  "lower_all [] = Inr []"
| "lower_all (PyStr s # xs) =
     (case lower_all xs of Inl err \<Rightarrow> Inl err | Inr ys \<Rightarrow> Inr (lower s # ys))"
| "lower_all (x # xs) = Inl AttributeError"

fun exclude_items :: "cfgval option \<Rightarrow> error + string list" where
  "exclude_items None = Inr []"
| "exclude_items (Some (Items xs)) = lower_all xs"
| "exclude_items (Some (Section d)) = Inr (map (lower \<circ> fst) d)"
| "exclude_items (Some (Scalar (PyStr s))) = Inr (map (\<lambda>ch. lower [ch]) s)"
| "exclude_items (Some (Scalar v)) = Inl TypeError"

text \<open>The block under \<^verbatim>\<open># merge excluded entities\<close>.\<close>

definition init_exclude :: "args \<Rightarrow> cfg \<Rightarrow> error + cfg" where
  "init_exclude a c =
     (case exclude_items (arg_exclude a) of
        Inl err \<Rightarrow> Inl err
      | Inr xs \<Rightarrow> Inr (c\<lparr>exclude := Some (sort (remdups (EXCLUDE @ xs)))\<rparr>))"

definition UNITS :: "(string \<times> string) list" where
  "UNITS = [(''interval'', ''h''), (''interval_min'', ''min''), (''min_level'', ''%'')]"

text \<open>
  The block under \<^verbatim>\<open># temp. warning\<close>. The local variable \<^verbatim>\<open>battery_cfg\<close> is bound only
  when the key \<^verbatim>\<open>battery\<close> is in the arguments.
\<close>

definition init_warning :: "args \<Rightarrow> error + effect list" where
  "init_warning a =
     (case arg_battery a of
        None \<Rightarrow> Inl NameError
      | Some battery_cfg \<Rightarrow>
         (case py_contains ''interval'' battery_cfg of
            Inl err \<Rightarrow> Inl err
          | Inr True \<Rightarrow>
              Inr [Log [] (Some ICON_warning),
                   Log ('' Please convert your '' @ hl ''interval'' @ '' (in hours) setting to ''
                        @ hl ''interval_min'' @ '' (in minutes)'') (Some ICON_warning),
                   Log ('' The '' @ hl ''interval'' @ '' option will be removed in  future release'')
                       (Some ICON_warning),
                   Log [] (Some ICON_warning)]
          | Inr False \<Rightarrow> Inr []))"

definition initialize :: "host \<Rightarrow> args \<Rightarrow> init_run" where
  "initialize h a =
     (let c0 = init_start a in
      case init_battery h a c0 [] of
        Inl err \<Rightarrow> \<lparr>trace = [], cfg_now = c0, failed = Some err\<rparr>
      | Inr (c1, t1) \<Rightarrow>
         (case init_unavailable h a c1 t1 of
            Inl err \<Rightarrow> \<lparr>trace = t1, cfg_now = c1, failed = Some err\<rparr>
          | Inr (c2, t2) \<Rightarrow>
             (case init_exclude a c2 of
                Inl err \<Rightarrow> \<lparr>trace = t2, cfg_now = c2, failed = Some err\<rparr>
              | Inr c3 \<Rightarrow>
                 (let c4 = c3\<lparr>units := Some UNITS\<rparr>;
                      t4 = t2 @ [NewADutils ''EnCh'' c4 APP_ICON]
                  in case init_warning a of
                       Inl err \<Rightarrow> \<lparr>trace = t4, cfg_now = c4, failed = Some err\<rparr>
                     | Inr logs \<Rightarrow> \<lparr>trace = t4 @ logs, cfg_now = c4, failed = None\<rparr>))))"

section \<open>Properties\<close>

subsection \<open>Notions used in the statements\<close>

text \<open>The value of the \<^verbatim>\<open>battery_level\<close> attribute of a state (\<^verbatim>\<open>None\<close> when it has none).\<close>

definition battery_level :: "entity_state \<Rightarrow> pyval" where
  "battery_level st = dict_get (attributes st) ''battery_level''"

text \<open>The state a check obtains for an entity, if its lookup returns one.\<close>

definition fetched :: "host \<Rightarrow> string \<Rightarrow> entity_state option" where
  "fetched h e = (case get_state_all h e of Found st \<Rightarrow> Some st | _ \<Rightarrow> None)"

text \<open>The state of the entity is one of the bad states, unavailable or unknown.\<close>

definition in_bad_state :: "host \<Rightarrow> string \<Rightarrow> bool" where
  "in_bad_state h e =
     (case fetched h e of
        None \<Rightarrow> False
      | Some st \<Rightarrow> state st = PyStr ''unavailable'' \<or> state st = PyStr ''unknown'')"

text \<open>The configured threshold, \<^verbatim>\<open>cfg["battery"]["min_level"]\<close>.\<close>

definition min_level_cfg :: "cfg \<Rightarrow> int option" where
  "min_level_cfg c = (case battery c of None \<Rightarrow> None | Some sec \<Rightarrow> map_of sec ''min_level'')"

text \<open>The battery level of the entity is a number at most the configured threshold.\<close>

definition at_most_min_level :: "host \<Rightarrow> cfg \<Rightarrow> string \<Rightarrow> bool" where
  "at_most_min_level h c e =
     (case (fetched h e, min_level_cfg c) of
        (Some st, Some m) \<Rightarrow> py_le_int (battery_level st) m = Inr True
      | _ \<Rightarrow> False)"

text \<open>As before, and the battery level is truthy (neither missing nor zero).\<close>

definition low_battery :: "host \<Rightarrow> cfg \<Rightarrow> string \<Rightarrow> bool" where
  "low_battery h c e =
     (case fetched h e of
        None \<Rightarrow> False
      | Some st \<Rightarrow> truthy (battery_level st) \<and> at_most_min_level h c e)"

text \<open>The lowercased id of the entity is in the exclusion list of the configuration.\<close>

definition excluded :: "cfg \<Rightarrow> string \<Rightarrow> bool" where
  "excluded c e = (case exclude c of None \<Rightarrow> False | Some ex \<Rightarrow> lower e \<in> set ex)"

text \<open>The lookup of the entity in the loop of a check raises \<^verbatim>\<open>TypeError\<close>.\<close>

definition lookup_fails :: "host \<Rightarrow> string \<Rightarrow> bool" where
  "lookup_fails h e = (case get_state_all h e of Raises err msg \<Rightarrow> err = TypeError | _ \<Rightarrow> False)"

fun is_call :: "effect \<Rightarrow> bool" where
  "is_call (CallService s m) = True"
| "is_call x = False"

fun is_log :: "effect \<Rightarrow> bool" where
  "is_log (Log m i) = True"
| "is_log x = False"

text \<open>The first log line of each check.\<close>

definition battery_header :: effect where
  "battery_header = Log ''Checking entities for low battery levels...'' (Some APP_ICON)"

definition unavailable_header :: effect where
  "unavailable_header = Log ''Checking entities for unavailable/unknown state...'' (Some APP_ICON)"

text \<open>Every option of a section is an integer.\<close>

definition int_valued :: "(string \<times> pyval) list \<Rightarrow> bool" where
  "int_valued d = list_all (\<lambda>kv. case snd kv of PyInt n \<Rightarrow> True | _ \<Rightarrow> False) d"

text \<open>
  The interval in minutes as a section of integer options gives it: the key
  \<^verbatim>\<open>interval_min\<close>, else the old key \<^verbatim>\<open>interval\<close> times 60, else the default.
\<close>

definition spec_interval_min :: "(string \<times> pyval) list \<Rightarrow> int \<Rightarrow> int" where
  "spec_interval_min d dflt =
     (case map_of d ''interval_min'' of
        Some (PyInt n) \<Rightarrow> n
      | _ \<Rightarrow> (case map_of d ''interval'' of
                Some (PyInt k) \<Rightarrow> k * 60
              | _ \<Rightarrow> dflt))"

text \<open>
  The same for any option values, converted with \<^verbatim>\<open>int\<close>: the key \<^verbatim>\<open>interval_min\<close>, else the
  old key \<^verbatim>\<open>interval\<close> times 60, else the default; and the threshold, the key \<^verbatim>\<open>min_level\<close>,
  else 20.
\<close>

definition configured_interval :: "host \<Rightarrow> (string \<times> pyval) list \<Rightarrow> int \<Rightarrow> error + int" where
  "configured_interval h d dflt =
     (case map_of d ''interval_min'' of
        Some v \<Rightarrow> py_int h v
      | None \<Rightarrow>
         (case map_of d ''interval'' of
            Some v \<Rightarrow> (case py_mul60 h v of Inl err \<Rightarrow> Inl err | Inr w \<Rightarrow> py_int h w)
          | None \<Rightarrow> Inr dflt))"

definition configured_min_level :: "host \<Rightarrow> (string \<times> pyval) list \<Rightarrow> error + int" where
  "configured_min_level h d =
     (case map_of d ''min_level'' of Some v \<Rightarrow> py_int h v | None \<Rightarrow> Inr 20)"

text \<open>The \<^verbatim>\<open>run_every\<close> calls of a trace that schedule a given check.\<close>

fun is_schedule :: "check \<Rightarrow> effect \<Rightarrow> bool" where
  "is_schedule k (RunEvery k' start interval) = (k = k')"
| "is_schedule k x = False"

subsection \<open>Example inputs\<close>

text \<open>
  A host with five entities, two of them excluded (one by default, one by configuration),
  whose lookups all succeed, and the arguments and configuration of a typical installation.
\<close>

definition st_door :: entity_state where
  "st_door = \<lparr>state = PyStr ''on'', attributes = [(''battery_level'', PyInt 0)],
              last_updated = ''2020-01-02T03:04:05+00:00''\<rparr>"

definition st_window :: entity_state where
  "st_window = \<lparr>state = PyStr ''unavailable'', attributes = [(''battery_level'', PyInt 15)],
                last_updated = ''2020-01-02T03:04:05+00:00''\<rparr>"

definition st_updater :: entity_state where
  "st_updater = \<lparr>state = PyStr ''unknown'', attributes = [(''battery_level'', PyInt 5)],
                 last_updated = ''2020-01-02T03:04:05+00:00''\<rparr>"

definition st_light :: entity_state where
  "st_light = \<lparr>state = PyStr ''unknown'', attributes = [],
               last_updated = ''2020-01-02T03:04:05+00:00''\<rparr>"

definition st_broken :: entity_state where
  "st_broken = \<lparr>state = PyStr ''unavailable'', attributes = [(''battery_level'', PyInt 3)],
                last_updated = ''2020-01-02T03:04:05+00:00''\<rparr>"

definition example_states :: "(string \<times> entity_state) list" where
  "example_states = [(''sensor.window'', st_window), (''sensor.door'', st_door),
                     (''Binary_sensor.updater'', st_updater), (''light.a'', st_light),
                     (''sensor.out_of_order'', st_broken)]"

definition lookup_in :: "(string \<times> entity_state) list \<Rightarrow> string \<Rightarrow> fetch" where
  "lookup_in sts e = (case map_of sts e of None \<Rightarrow> NotFound | Some st \<Rightarrow> Found st)"

definition example_host :: host where
  "example_host =
     \<lparr>states = example_states,
      get_state_all = lookup_in example_states,
      get_state_again = lookup_in example_states,
      friendly_name = (\<lambda>e. e),
      split_entity = (\<lambda>e. [takeWhile (\<lambda>ch. ch \<noteq> CHR ''.'') e,
                             drop 1 (dropWhile (\<lambda>ch. ch \<noteq> CHR ''.'') e)]),
      to_local = (\<lambda>s. ((2020, 1, 2), (3, 4, 5))),
      today = (2020, 1, 2),
      now = 1000,
      int_of_str = (\<lambda>s. None),
      float_mul60 = (\<lambda>f. case f of Finite q s \<Rightarrow> Finite (q * 60) [] | x \<Rightarrow> x)\<rparr>"

definition example_args :: args where
  "example_args =
     \<lparr>arg_notify = Some (PyStr ''notify.me''),
      arg_show_friendly_name = None,
      arg_battery = Some (Section [(''interval'', PyInt 2), (''min_level'', PyInt 20)]),
      arg_unavailable = Some (Section [(''interval_min'', PyInt 30)]),
      arg_exclude = Some (Items [PyStr ''Sensor.Out_Of_Order''])\<rparr>"

definition example_exclude :: "string list" where
  "example_exclude = [''binary_sensor.updater'',
                      ''persistent_notification.config_entry_discovery'',
                      ''sensor.out_of_order'']"

definition example_cfg :: cfg where
  "example_cfg =
     \<lparr>notify = PyStr ''notify.me'', show_friendly_name = True,
      battery = Some [(''interval_min'', 120), (''min_level'', 20)],
      unavailable = Some [(''interval_min'', 30)],
      exclude = Some example_exclude,
      units = Some UNITS\<rparr>"

text \<open>
  A host with two entities where the lookup of the second one raises \<^verbatim>\<open>TypeError\<close> in the
  loop (and succeeds afterwards): \<^verbatim>\<open>sensor.a\<close> is unavailable with a battery level of 15,
  \<^verbatim>\<open>sensor.b\<close> is on with a battery level of 0.
\<close>

definition failing_states :: "(string \<times> entity_state) list" where
  "failing_states = [(''sensor.a'', st_window), (''sensor.b'', st_door)]"

definition failing_host :: host where
  "failing_host =
     example_host\<lparr>states := failing_states,
       get_state_all := (\<lambda>e. if e = ''sensor.b'' then Raises TypeError ''not subscriptable''
                              else lookup_in failing_states e),
       get_state_again := lookup_in failing_states\<rparr>"

text \<open>
  A host with two entities whose lookups succeed: \<^verbatim>\<open>sensor.a\<close> is on and has the text
  \<^verbatim>\<open>low\<close> as battery level, \<^verbatim>\<open>sensor.b\<close> has a battery level of 5.
\<close>

definition st_label :: entity_state where
  "st_label = \<lparr>state = PyStr ''on'', attributes = [(''battery_level'', PyStr ''low'')],
               last_updated = ''2020-01-02T03:04:05+00:00''\<rparr>"

definition string_level_states :: "(string \<times> entity_state) list" where
  "string_level_states = [(''sensor.a'', st_label), (''sensor.b'', st_updater)]"

definition string_level_host :: host where
  "string_level_host =
     example_host\<lparr>states := string_level_states,
       get_state_all := lookup_in string_level_states,
       get_state_again := lookup_in string_level_states\<rparr>"

text \<open>Arguments with a battery key that has no value, and with a float for the old key.\<close>

definition empty_battery_args :: args where
  "empty_battery_args = example_args\<lparr>arg_battery := Some (Scalar PyNone)\<rparr>"

definition float_args :: args where
  "float_args =
     example_args\<lparr>arg_battery := Some (Section [(''interval'', PyFloat (Finite (1 / 2) ''0.5''))])\<rparr>"

subsection \<open>The entities a check iterates\<close>

lemma entities_Some:
  "exclude c = Some ex \<Longrightarrow>
   entities h c = Inr (sort (filter (\<lambda>x. lower x \<notin> set ex) (map fst (states h))))"
  by (simp add: entities_def)

lemma entities_sorted: "entities h c = Inr es \<Longrightarrow> sorted es"
  by (auto simp: entities_def split: if_splits option.splits)

lemma entities_distinct:
  "entities h c = Inr es \<Longrightarrow> distinct (map fst (states h)) \<Longrightarrow> distinct es"
  by (auto simp: entities_def split: if_splits option.splits)

lemma entities_not_excluded:
  "entities h c = Inr es \<Longrightarrow> exclude c = Some ex \<Longrightarrow> e \<in> set es \<Longrightarrow> lower e \<notin> set ex"
  by (auto simp: entities_def split: if_splits option.splits)

lemma entities_members:
  "entities h c = Inr es \<Longrightarrow>
     e \<in> set es \<longleftrightarrow> e \<in> set (map fst (states h)) \<and> \<not> excluded c e"
  by (force simp: entities_def excluded_def split: if_splits option.splits)

subsection \<open>One iteration\<close>

lemma try_get_state_logs: "try_get_state h a e = (ls, r) \<Longrightarrow> \<forall>l \<in> set ls. is_log l"
  by (auto simp: try_get_state_def split: fetch.splits if_splits)

lemma battery_body_log: "battery_body h c a e = Inr (Some l) \<Longrightarrow> is_log l"
  by (auto simp: battery_body_def Let_def
      split: var.splits option.splits if_splits sum.splits bool.splits)

lemma unavailable_body_log: "unavailable_body h c a rs e = Inr (Some l) \<Longrightarrow> is_log l"
  by (auto simp: unavailable_body_def split: var.splits option.splits if_splits sum.splits)

lemma unavailable_body_fresh: "unavailable_body h c a rs e = Inr (Some l) \<Longrightarrow> e \<notin> set rs"
  by (auto simp: unavailable_body_def split: var.splits option.splits if_splits sum.splits)

lemma battery_step_logs: "battery_step h c a e = (ls, r) \<Longrightarrow> \<forall>l \<in> set ls. is_log l"
proof -
  assume s: "battery_step h c a e = (ls, r)"
  obtain ls0 r0 where t: "try_get_state h a e = (ls0, r0)" by force
  have l0: "\<forall>l \<in> set ls0. is_log l" by (rule try_get_state_logs[OF t])
  show ?thesis
  proof (cases r0)
    case (Inl err)
    with s t l0 show ?thesis by (simp add: battery_step_def)
  next
    case (Inr a')
    show ?thesis
    proof (cases "battery_body h c a' e")
      case (Inl err)
      with s t Inr l0 show ?thesis by (simp add: battery_step_def)
    next
      case b: (Inr x)
      show ?thesis
      proof (cases x)
        case None
        with s t Inr b l0 show ?thesis by (simp add: battery_step_def)
      next
        case (Some l)
        with b have "is_log l" using battery_body_log by simp
        with s t Inr b Some l0 show ?thesis by (auto simp: battery_step_def)
      qed
    qed
  qed
qed

lemma unavailable_step_logs:
  "unavailable_step h c a rs e = (ls, r) \<Longrightarrow> \<forall>l \<in> set ls. is_log l"
proof -
  assume s: "unavailable_step h c a rs e = (ls, r)"
  obtain ls0 r0 where t: "try_get_state h a e = (ls0, r0)" by force
  have l0: "\<forall>l \<in> set ls0. is_log l" by (rule try_get_state_logs[OF t])
  show ?thesis
  proof (cases r0)
    case (Inl err)
    with s t l0 show ?thesis by (simp add: unavailable_step_def)
  next
    case (Inr a')
    show ?thesis
    proof (cases "unavailable_body h c a' rs e")
      case (Inl err)
      with s t Inr l0 show ?thesis by (simp add: unavailable_step_def)
    next
      case b: (Inr x)
      show ?thesis
      proof (cases x)
        case None
        with s t Inr b l0 show ?thesis by (simp add: unavailable_step_def)
      next
        case (Some l)
        with b have "is_log l" using unavailable_body_log by simp
        with s t Inr b Some l0 show ?thesis by (auto simp: unavailable_step_def)
      qed
    qed
  qed
qed

lemma unavailable_step_fresh:
  "unavailable_step h c a rs e = (ls, Inr (a', True)) \<Longrightarrow> e \<notin> set rs"
proof -
  assume s: "unavailable_step h c a rs e = (ls, Inr (a', True))"
  obtain ls0 r0 where t: "try_get_state h a e = (ls0, r0)" by force
  show ?thesis
  proof (cases r0)
    case (Inl err)
    with s t show ?thesis by (simp add: unavailable_step_def)
  next
    case (Inr a1)
    show ?thesis
    proof (cases "unavailable_body h c a1 rs e")
      case (Inl err)
      with s t Inr show ?thesis by (simp add: unavailable_step_def)
    next
      case b: (Inr x)
      show ?thesis
      proof (cases x)
        case None
        with s t Inr b show ?thesis by (simp add: unavailable_step_def)
      next
        case (Some l)
        with b show ?thesis by (simp add: unavailable_body_fresh)
      qed
    qed
  qed
qed

subsection \<open>The loops\<close>

lemma battery_loop_logs:
  "battery_loop h c es a rs tr = (tr', out) \<Longrightarrow> \<forall>l \<in> set tr. is_log l \<Longrightarrow>
     \<forall>l \<in> set tr'. is_log l"
proof (induction es arbitrary: a rs tr)
  case Nil
  then show ?case by simp
next
  case (Cons e es)
  obtain ls r where s: "battery_step h c a e = (ls, r)" by force
  have l: "\<forall>l \<in> set (tr @ ls). is_log l"
    using battery_step_logs[OF s] Cons.prems(2) by auto
  show ?case
  proof (cases r)
    case (Inl err)
    with Cons.prems(1) s l show ?thesis by simp
  next
    case (Inr p)
    obtain a' fl where p: "p = (a', fl)" by (cases p)
    from Cons.prems(1) s Inr p have
      "battery_loop h c es a' (if fl then rs @ [e] else rs) (tr @ ls) = (tr', out)" by simp
    from Cons.IH[OF this l] show ?thesis .
  qed
qed

lemma unavailable_loop_logs:
  "unavailable_loop h c es a rs tr = (tr', out) \<Longrightarrow> \<forall>l \<in> set tr. is_log l \<Longrightarrow>
     \<forall>l \<in> set tr'. is_log l"
proof (induction es arbitrary: a rs tr)
  case Nil
  then show ?case by simp
next
  case (Cons e es)
  obtain ls r where s: "unavailable_step h c a rs e = (ls, r)" by force
  have l: "\<forall>l \<in> set (tr @ ls). is_log l"
    using unavailable_step_logs[OF s] Cons.prems(2) by auto
  show ?case
  proof (cases r)
    case (Inl err)
    with Cons.prems(1) s l show ?thesis by simp
  next
    case (Inr p)
    obtain a' fl where p: "p = (a', fl)" by (cases p)
    from Cons.prems(1) s Inr p have
      "unavailable_loop h c es a' (if fl then rs @ [e] else rs) (tr @ ls) = (tr', out)" by simp
    from Cons.IH[OF this l] show ?thesis .
  qed
qed

lemma battery_loop_subset:
  "battery_loop h c es a rs tr = (tr', Inr rs') \<Longrightarrow> set rs' \<subseteq> set rs \<union> set es"
proof (induction es arbitrary: a rs tr)
  case Nil
  then show ?case by simp
next
  case (Cons e es)
  obtain ls r where s: "battery_step h c a e = (ls, r)" by force
  show ?case
  proof (cases r)
    case (Inl err)
    with Cons.prems s show ?thesis by simp
  next
    case (Inr p)
    obtain a' fl where p: "p = (a', fl)" by (cases p)
    from Cons.prems s Inr p have
      "battery_loop h c es a' (if fl then rs @ [e] else rs) (tr @ ls) = (tr', Inr rs')" by simp
    from Cons.IH[OF this] show ?thesis by (auto split: if_splits)
  qed
qed

lemma unavailable_loop_subset:
  "unavailable_loop h c es a rs tr = (tr', Inr rs') \<Longrightarrow> set rs' \<subseteq> set rs \<union> set es"
proof (induction es arbitrary: a rs tr)
  case Nil
  then show ?case by simp
next
  case (Cons e es)
  obtain ls r where s: "unavailable_step h c a rs e = (ls, r)" by force
  show ?case
  proof (cases r)
    case (Inl err)
    with Cons.prems s show ?thesis by simp
  next
    case (Inr p)
    obtain a' fl where p: "p = (a', fl)" by (cases p)
    from Cons.prems s Inr p have
      "unavailable_loop h c es a' (if fl then rs @ [e] else rs) (tr @ ls) = (tr', Inr rs')"
      by simp
    from Cons.IH[OF this] show ?thesis by (auto split: if_splits)
  qed
qed

lemma battery_loop_sorted:
  "battery_loop h c es a rs tr = (tr', Inr rs') \<Longrightarrow> sorted (rs @ es) \<Longrightarrow>
     distinct (rs @ es) \<Longrightarrow> sorted rs' \<and> distinct rs'"
proof (induction es arbitrary: a rs tr)
  case Nil
  then show ?case by simp
next
  case (Cons e es)
  obtain ls r where s: "battery_step h c a e = (ls, r)" by force
  show ?case
  proof (cases r)
    case (Inl err)
    with Cons.prems(1) s show ?thesis by simp
  next
    case (Inr p)
    obtain a' fl where p: "p = (a', fl)" by (cases p)
    define rs1 where "rs1 = (if fl then rs @ [e] else rs)"
    from Cons.prems(1) s Inr p have l: "battery_loop h c es a' rs1 (tr @ ls) = (tr', Inr rs')"
      by (simp add: rs1_def)
    have 1: "sorted (rs1 @ es)" using Cons.prems(2) by (auto simp: rs1_def sorted_append)
    have 2: "distinct (rs1 @ es)" using Cons.prems(3) by (auto simp: rs1_def)
    from Cons.IH[OF l 1 2] show ?thesis .
  qed
qed

lemma unavailable_loop_sorted:
  "unavailable_loop h c es a rs tr = (tr', Inr rs') \<Longrightarrow> sorted (rs @ es) \<Longrightarrow> distinct rs \<Longrightarrow>
     sorted rs' \<and> distinct rs'"
proof (induction es arbitrary: a rs tr)
  case Nil
  then show ?case by simp
next
  case (Cons e es)
  obtain ls r where s: "unavailable_step h c a rs e = (ls, r)" by force
  show ?case
  proof (cases r)
    case (Inl err)
    with Cons.prems(1) s show ?thesis by simp
  next
    case (Inr p)
    obtain a' fl where p: "p = (a', fl)" by (cases p)
    define rs1 where "rs1 = (if fl then rs @ [e] else rs)"
    from Cons.prems(1) s Inr p have
      l: "unavailable_loop h c es a' rs1 (tr @ ls) = (tr', Inr rs')"
      by (simp add: rs1_def)
    have 1: "sorted (rs1 @ es)" using Cons.prems(2) by (auto simp: rs1_def sorted_append)
    have 2: "distinct rs1"
    proof (cases fl)
      case True
      with s Inr p have "e \<notin> set rs" using unavailable_step_fresh by simp
      with True Cons.prems(3) show ?thesis by (simp add: rs1_def)
    next
      case False
      with Cons.prems(3) show ?thesis by (simp add: rs1_def)
    qed
    from Cons.IH[OF l 1 2] show ?thesis .
  qed
qed

subsection \<open>The shape of a run\<close>

lemma print_result_is_log: "is_log (print_result k rs reason)"
  by (simp add: print_result_def)

lemma filter_call_logs: "\<forall>l \<in> set ls. is_log l \<Longrightarrow> filter is_call ls = []"
proof (induction ls)
  case Nil
  then show ?case by simp
next
  case (Cons l ls)
  then show ?case by (cases l) auto
qed

lemma filter_call_send: "filter is_call (send_notification c t rs) = send_notification c t rs"
  by (simp add: send_notification_def)

lemma check_battery_shape:
  "(\<exists>err. entities h c = Inl err \<and> outcome (check_battery h c) = Inl err \<and>
          effects (check_battery h c) = [battery_header])
   \<or> (\<exists>es ls out. entities h c = Inr es \<and> battery_loop h c es Unbound [] [] = (ls, out) \<and>
         ((\<exists>err. out = Inl err \<and> outcome (check_battery h c) = Inl err \<and>
                 effects (check_battery h c) = battery_header # ls)
          \<or> (\<exists>rs. out = Inr rs \<and> outcome (check_battery h c) = Inr rs \<and>
                 effects (check_battery h c) = battery_header # ls
                   @ send_notification c (ICON_battery @ '' Battery low'') rs
                   @ [print_result ''battery'' rs ''low battery levels''])))"
proof (cases "entities h c")
  case (Inl err)
  then show ?thesis by (simp add: check_battery_def battery_header_def)
next
  case (Inr es)
  obtain ls out where loop: "battery_loop h c es Unbound [] [] = (ls, out)" by force
  show ?thesis
  proof (cases out)
    case (Inl err)
    with Inr loop show ?thesis by (simp add: check_battery_def battery_header_def)
  next
    case r: (Inr rs)
    with Inr loop show ?thesis by (simp add: check_battery_def battery_header_def)
  qed
qed

lemma check_unavailable_shape:
  "(\<exists>err. entities h c = Inl err \<and> outcome (check_unavailable h c) = Inl err \<and>
          effects (check_unavailable h c) = [unavailable_header])
   \<or> (\<exists>es ls out. entities h c = Inr es \<and> unavailable_loop h c es Unbound [] [] = (ls, out) \<and>
         ((\<exists>err. out = Inl err \<and> outcome (check_unavailable h c) = Inl err \<and>
                 effects (check_unavailable h c) = unavailable_header # ls)
          \<or> (\<exists>rs. out = Inr rs \<and> outcome (check_unavailable h c) = Inr rs \<and>
                 effects (check_unavailable h c) = unavailable_header # ls
                   @ send_notification c (APP_ICON @ '' Unavailable entities'') rs
                   @ [print_result ''unavailable'' rs ''unavailable/unknown state''])))"
proof (cases "entities h c")
  case (Inl err)
  then show ?thesis by (simp add: check_unavailable_def unavailable_header_def)
next
  case (Inr es)
  obtain ls out where loop: "unavailable_loop h c es Unbound [] [] = (ls, out)" by force
  show ?thesis
  proof (cases out)
    case (Inl err)
    with Inr loop show ?thesis by (simp add: check_unavailable_def unavailable_header_def)
  next
    case r: (Inr rs)
    with Inr loop show ?thesis by (simp add: check_unavailable_def unavailable_header_def)
  qed
qed

lemma check_battery_Inr:
  "outcome (check_battery h c) = Inr rs \<Longrightarrow>
     \<exists>es tr. entities h c = Inr es \<and> battery_loop h c es Unbound [] [] = (tr, Inr rs)
       \<and> effects (check_battery h c) = battery_header # tr
            @ send_notification c (ICON_battery @ '' Battery low'') rs
            @ [print_result ''battery'' rs ''low battery levels'']"
  using check_battery_shape[of h c] by auto

lemma check_unavailable_Inr:
  "outcome (check_unavailable h c) = Inr rs \<Longrightarrow>
     \<exists>es tr. entities h c = Inr es \<and> unavailable_loop h c es Unbound [] [] = (tr, Inr rs)
       \<and> effects (check_unavailable h c) = unavailable_header # tr
            @ send_notification c (APP_ICON @ '' Unavailable entities'') rs
            @ [print_result ''unavailable'' rs ''unavailable/unknown state'']"
  using check_unavailable_shape[of h c] by auto

subsection \<open>Calls and log lines of a run\<close>

lemma check_battery_calls:
  "filter is_call (effects (check_battery h c)) =
     (case outcome (check_battery h c) of
        Inl err \<Rightarrow> []
      | Inr rs \<Rightarrow> send_notification c (ICON_battery @ '' Battery low'') rs)"
proof -
  have pr: "\<And>rs. \<not> is_call (print_result ''battery'' rs ''low battery levels'')"
    by (simp add: print_result_def)
  from check_battery_shape[of h c] show ?thesis
  proof (elim disjE exE conjE)
    fix err assume "outcome (check_battery h c) = Inl err"
      "effects (check_battery h c) = [battery_header]"
    then show ?thesis by (simp add: battery_header_def)
  next
    fix es ls out err
    assume loop: "battery_loop h c es Unbound [] [] = (ls, out)"
      and o: "outcome (check_battery h c) = Inl err"
      and e: "effects (check_battery h c) = battery_header # ls"
    have "filter is_call ls = []"
      using battery_loop_logs[OF loop] by (simp add: filter_call_logs)
    with o e show ?thesis by (simp add: battery_header_def)
  next
    fix es ls out rs
    assume loop: "battery_loop h c es Unbound [] [] = (ls, out)"
      and o: "outcome (check_battery h c) = Inr rs"
      and e: "effects (check_battery h c) = battery_header # ls
                   @ send_notification c (ICON_battery @ '' Battery low'') rs
                   @ [print_result ''battery'' rs ''low battery levels'']"
    have "filter is_call ls = []"
      using battery_loop_logs[OF loop] by (simp add: filter_call_logs)
    with o e show ?thesis by (simp add: battery_header_def pr filter_call_send)
  qed
qed

lemma check_unavailable_calls:
  "filter is_call (effects (check_unavailable h c)) =
     (case outcome (check_unavailable h c) of
        Inl err \<Rightarrow> []
      | Inr rs \<Rightarrow> send_notification c (APP_ICON @ '' Unavailable entities'') rs)"
proof -
  have pr: "\<And>rs. \<not> is_call (print_result ''unavailable'' rs ''unavailable/unknown state'')"
    by (simp add: print_result_def)
  from check_unavailable_shape[of h c] show ?thesis
  proof (elim disjE exE conjE)
    fix err assume "outcome (check_unavailable h c) = Inl err"
      "effects (check_unavailable h c) = [unavailable_header]"
    then show ?thesis by (simp add: unavailable_header_def)
  next
    fix es ls out err
    assume loop: "unavailable_loop h c es Unbound [] [] = (ls, out)"
      and o: "outcome (check_unavailable h c) = Inl err"
      and e: "effects (check_unavailable h c) = unavailable_header # ls"
    have "filter is_call ls = []"
      using unavailable_loop_logs[OF loop] by (simp add: filter_call_logs)
    with o e show ?thesis by (simp add: unavailable_header_def)
  next
    fix es ls out rs
    assume loop: "unavailable_loop h c es Unbound [] [] = (ls, out)"
      and o: "outcome (check_unavailable h c) = Inr rs"
      and e: "effects (check_unavailable h c) = unavailable_header # ls
                   @ send_notification c (APP_ICON @ '' Unavailable entities'') rs
                   @ [print_result ''unavailable'' rs ''unavailable/unknown state'']"
    have "filter is_call ls = []"
      using unavailable_loop_logs[OF loop] by (simp add: filter_call_logs)
    with o e show ?thesis by (simp add: unavailable_header_def pr filter_call_send)
  qed
qed

lemma call_in_filter: "CallService s m \<in> set xs \<longleftrightarrow> CallService s m \<in> set (filter is_call xs)"
  by simp

lemma send_notification_call:
  "(\<exists>s m. CallService s m \<in> set (send_notification c t rs)) \<longleftrightarrow> truthy (notify c) \<and> rs \<noteq> []"
  by (simp add: send_notification_def)

lemma send_notification_elems:
  "x \<in> set (send_notification c t rs) \<Longrightarrow> \<exists>m. x = CallService (replace_dot (py_str (notify c))) m"
  by (auto simp: send_notification_def split: if_splits)

lemma send_notification_length: "length (send_notification c t rs) \<le> 1"
  by (simp add: send_notification_def)

lemma check_battery_cfg: "cfg_after (check_battery h c) = c"
  by (simp add: check_battery_def Let_def split: sum.splits prod.splits)

lemma check_unavailable_cfg: "cfg_after (check_unavailable h c) = c"
  by (simp add: check_unavailable_def Let_def split: sum.splits prod.splits)

lemma check_battery_effects:
  assumes "x \<in> set (effects (check_battery h c))"
  shows "is_log x \<or> (\<exists>m. x = CallService (replace_dot (py_str (notify c))) m)"
proof -
  have hd: "is_log battery_header" by (simp add: battery_header_def)
  from check_battery_shape[of h c] show ?thesis
  proof (elim disjE exE conjE)
    fix err assume "effects (check_battery h c) = [battery_header]"
    with assms hd show ?thesis by simp
  next
    fix es ls out err
    assume loop: "battery_loop h c es Unbound [] [] = (ls, out)"
      and e: "effects (check_battery h c) = battery_header # ls"
    from battery_loop_logs[OF loop] have "\<forall>l \<in> set ls. is_log l" by simp
    with assms e hd show ?thesis by auto
  next
    fix es ls out rs
    assume loop: "battery_loop h c es Unbound [] [] = (ls, out)"
      and e: "effects (check_battery h c) = battery_header # ls
                   @ send_notification c (ICON_battery @ '' Battery low'') rs
                   @ [print_result ''battery'' rs ''low battery levels'']"
    from battery_loop_logs[OF loop] have logs: "\<forall>l \<in> set ls. is_log l" by simp
    from assms e have "x = battery_header \<or> x \<in> set ls
      \<or> x \<in> set (send_notification c (ICON_battery @ '' Battery low'') rs)
      \<or> x = print_result ''battery'' rs ''low battery levels''" by auto
    with logs hd print_result_is_log send_notification_elems show ?thesis by blast
  qed
qed

lemma check_unavailable_effects:
  assumes "x \<in> set (effects (check_unavailable h c))"
  shows "is_log x \<or> (\<exists>m. x = CallService (replace_dot (py_str (notify c))) m)"
proof -
  have hd: "is_log unavailable_header" by (simp add: unavailable_header_def)
  from check_unavailable_shape[of h c] show ?thesis
  proof (elim disjE exE conjE)
    fix err assume "effects (check_unavailable h c) = [unavailable_header]"
    with assms hd show ?thesis by simp
  next
    fix es ls out err
    assume loop: "unavailable_loop h c es Unbound [] [] = (ls, out)"
      and e: "effects (check_unavailable h c) = unavailable_header # ls"
    from unavailable_loop_logs[OF loop] have "\<forall>l \<in> set ls. is_log l" by simp
    with assms e hd show ?thesis by auto
  next
    fix es ls out rs
    assume loop: "unavailable_loop h c es Unbound [] [] = (ls, out)"
      and e: "effects (check_unavailable h c) = unavailable_header # ls
                   @ send_notification c (APP_ICON @ '' Unavailable entities'') rs
                   @ [print_result ''unavailable'' rs ''unavailable/unknown state'']"
    from unavailable_loop_logs[OF loop] have logs: "\<forall>l \<in> set ls. is_log l" by simp
    from assms e have "x = unavailable_header \<or> x \<in> set ls
      \<or> x \<in> set (send_notification c (APP_ICON @ '' Unavailable entities'') rs)
      \<or> x = print_result ''unavailable'' rs ''unavailable/unknown state''" by auto
    with logs hd print_result_is_log send_notification_elems show ?thesis by blast
  qed
qed

section \<open>The claims\<close>

subsection \<open>C3: the notification\<close>

text \<open>
  C3. In a run of either check, a service call is made exactly when the notify target is
  truthy and the run ends with a non-empty results list; it is then the only call, to the
  target with dots replaced by slashes, and its message is the icon and title, the number
  of results in parentheses, and the result ids joined by a comma and a space.
\<close>

theorem notification_iff_target_and_results:
  "((\<exists>s m. CallService s m \<in> set (effects (check_battery h c))) \<longleftrightarrow>
       truthy (notify c) \<and> (\<exists>rs. outcome (check_battery h c) = Inr rs \<and> rs \<noteq> []))
   \<and> (\<forall>rs. outcome (check_battery h c) = Inr rs \<and> truthy (notify c) \<and> rs \<noteq> [] \<longrightarrow>
         filter is_call (effects (check_battery h c)) =
           [CallService (replace_dot (py_str (notify c)))
              (ICON_battery @ '' Battery low ('' @ str_nat (length rs) @ ''): '' @ join '', '' rs)])
   \<and> ((\<exists>s m. CallService s m \<in> set (effects (check_unavailable h c))) \<longleftrightarrow>
       truthy (notify c) \<and> (\<exists>rs. outcome (check_unavailable h c) = Inr rs \<and> rs \<noteq> []))
   \<and> (\<forall>rs. outcome (check_unavailable h c) = Inr rs \<and> truthy (notify c) \<and> rs \<noteq> [] \<longrightarrow>
         filter is_call (effects (check_unavailable h c)) =
           [CallService (replace_dot (py_str (notify c)))
              (APP_ICON @ '' Unavailable entities ('' @ str_nat (length rs) @ ''): '' @ join '', '' rs)])"
proof (intro conjI allI impI)
  show "(\<exists>s m. CallService s m \<in> set (effects (check_battery h c))) \<longleftrightarrow>
       truthy (notify c) \<and> (\<exists>rs. outcome (check_battery h c) = Inr rs \<and> rs \<noteq> [])"
  proof (cases "outcome (check_battery h c)")
    case (Inl err)
    then show ?thesis
      using check_battery_calls[of h c] call_in_filter[of _ _ "effects (check_battery h c)"]
      by simp
  next
    case (Inr rs)
    then show ?thesis
      using check_battery_calls[of h c] call_in_filter[of _ _ "effects (check_battery h c)"]
        send_notification_call[of c "ICON_battery @ '' Battery low''" rs]
      by simp
  qed
next
  fix rs
  assume "outcome (check_battery h c) = Inr rs \<and> truthy (notify c) \<and> rs \<noteq> []"
  then show "filter is_call (effects (check_battery h c)) =
           [CallService (replace_dot (py_str (notify c)))
              (ICON_battery @ '' Battery low ('' @ str_nat (length rs) @ ''): '' @ join '', '' rs)]"
    using check_battery_calls[of h c] by (simp add: send_notification_def)
next
  show "(\<exists>s m. CallService s m \<in> set (effects (check_unavailable h c))) \<longleftrightarrow>
       truthy (notify c) \<and> (\<exists>rs. outcome (check_unavailable h c) = Inr rs \<and> rs \<noteq> [])"
  proof (cases "outcome (check_unavailable h c)")
    case (Inl err)
    then show ?thesis
      using check_unavailable_calls[of h c]
        call_in_filter[of _ _ "effects (check_unavailable h c)"]
      by simp
  next
    case (Inr rs)
    then show ?thesis
      using check_unavailable_calls[of h c]
        call_in_filter[of _ _ "effects (check_unavailable h c)"]
        send_notification_call[of c "APP_ICON @ '' Unavailable entities''" rs]
      by simp
  qed
next
  fix rs
  assume "outcome (check_unavailable h c) = Inr rs \<and> truthy (notify c) \<and> rs \<noteq> []"
  then show "filter is_call (effects (check_unavailable h c)) =
           [CallService (replace_dot (py_str (notify c)))
              (APP_ICON @ '' Unavailable entities ('' @ str_nat (length rs) @ ''): '' @ join '', '' rs)]"
    using check_unavailable_calls[of h c] by (simp add: send_notification_def)
qed

theorem notification_iff_target_and_results_witness:
  "truthy (notify example_cfg) \<and>
   outcome (check_battery example_host example_cfg) = Inr [''sensor.window''] \<and>
   filter is_call (effects (check_battery example_host example_cfg)) =
     [CallService ''notify/me'' (ICON_battery @ '' Battery low (1): sensor.window'')] \<and>
   outcome (check_unavailable example_host example_cfg) = Inr [''light.a'', ''sensor.window''] \<and>
   filter is_call (effects (check_unavailable example_host example_cfg)) =
     [CallService ''notify/me'' (APP_ICON @ '' Unavailable entities (2): light.a, sensor.window'')]"
proof -
  have t: "truthy (notify example_cfg)" by (simp add: example_cfg_def)
  have b: "outcome (check_battery example_host example_cfg) = Inr [''sensor.window'']"
    by code_simp
  have u: "outcome (check_unavailable example_host example_cfg) = Inr [''light.a'', ''sensor.window'']"
    by code_simp
  have s: "replace_dot (py_str (notify example_cfg)) = ''notify/me''" by code_simp
  have n1: "str_nat (Suc 0) = ''1''" by code_simp
  have n2: "str_nat (Suc (Suc 0)) = ''2''" "str_nat 2 = ''2''" by code_simp+
  from notification_iff_target_and_results[of example_host example_cfg] t b u
  show ?thesis by (simp add: s n1 n2)
qed

subsection \<open>C6: the frame of a check\<close>

text \<open>
  C6. A run of either check leaves \<^verbatim>\<open>self.cfg\<close> as it was; every entry of its trace is a log
  line or a call of the configured notify service, of which there is at most one; in
  particular no entity state is written.
\<close>

theorem checks_only_log_and_notify:
  "cfg_after (check_battery h c) = c
   \<and> (\<forall>x \<in> set (effects (check_battery h c)).
         is_log x \<or> (\<exists>m. x = CallService (replace_dot (py_str (notify c))) m))
   \<and> length (filter is_call (effects (check_battery h c))) \<le> 1
   \<and> (\<forall>e v. SetState e v \<notin> set (effects (check_battery h c)))
   \<and> cfg_after (check_unavailable h c) = c
   \<and> (\<forall>x \<in> set (effects (check_unavailable h c)).
         is_log x \<or> (\<exists>m. x = CallService (replace_dot (py_str (notify c))) m))
   \<and> length (filter is_call (effects (check_unavailable h c))) \<le> 1
   \<and> (\<forall>e v. SetState e v \<notin> set (effects (check_unavailable h c)))"
proof (intro conjI ballI allI)
  show "cfg_after (check_battery h c) = c" by (rule check_battery_cfg)
  show "cfg_after (check_unavailable h c) = c" by (rule check_unavailable_cfg)
next
  fix x assume "x \<in> set (effects (check_battery h c))"
  then show "is_log x \<or> (\<exists>m. x = CallService (replace_dot (py_str (notify c))) m)"
    by (rule check_battery_effects)
next
  fix x assume "x \<in> set (effects (check_unavailable h c))"
  then show "is_log x \<or> (\<exists>m. x = CallService (replace_dot (py_str (notify c))) m)"
    by (rule check_unavailable_effects)
next
  show "length (filter is_call (effects (check_battery h c))) \<le> 1"
    using send_notification_length
    by (simp add: check_battery_calls split: sum.splits)
  show "length (filter is_call (effects (check_unavailable h c))) \<le> 1"
    using send_notification_length
    by (simp add: check_unavailable_calls split: sum.splits)
next
  fix e v
  show "SetState e v \<notin> set (effects (check_battery h c))"
    using check_battery_effects[of "SetState e v" h c] by auto
  show "SetState e v \<notin> set (effects (check_unavailable h c))"
    using check_unavailable_effects[of "SetState e v" h c] by auto
qed

theorem checks_only_log_and_notify_witness:
  "cfg_after (check_battery example_host example_cfg) = example_cfg \<and>
   cfg_after (check_unavailable example_host example_cfg) = example_cfg \<and>
   length (effects (check_battery example_host example_cfg)) = 4 \<and>
   length (filter is_log (effects (check_battery example_host example_cfg))) = 3 \<and>
   length (filter is_call (effects (check_battery example_host example_cfg))) \<le> 1 \<and>
   length (filter is_call (effects (check_unavailable example_host example_cfg))) \<le> 1"
proof -
  have a: "length (effects (check_battery example_host example_cfg)) = 4" by code_simp
  have b: "length (filter is_log (effects (check_battery example_host example_cfg))) = 3"
    by code_simp
  from checks_only_log_and_notify[of example_host example_cfg] a b show ?thesis by blast
qed

subsection \<open>C7: order of the results\<close>

text \<open>
  C7. The results list of a completed run of the unavailable check is sorted and has no
  duplicates; so is that of the battery check, the keys of the host's state dict being
  distinct (as the keys of a dict are).
\<close>

theorem results_sorted_and_distinct:
  "(\<forall>rs. outcome (check_unavailable h c) = Inr rs \<longrightarrow> sorted rs \<and> distinct rs)
   \<and> (distinct (map fst (states h)) \<longrightarrow>
        (\<forall>rs. outcome (check_battery h c) = Inr rs \<longrightarrow> sorted rs \<and> distinct rs))"
proof -
  have u: "sorted rs \<and> distinct rs" if "outcome (check_unavailable h c) = Inr rs" for rs
  proof -
    from check_unavailable_Inr[OF that] obtain es tr where
      ent: "entities h c = Inr es"
      and loop: "unavailable_loop h c es Unbound [] [] = (tr, Inr rs)"
      by blast
    have "sorted ([] @ es)" using entities_sorted[OF ent] by simp
    from unavailable_loop_sorted[OF loop this] show ?thesis by simp
  qed
  have b: "sorted rs \<and> distinct rs"
    if d: "distinct (map fst (states h))" and o: "outcome (check_battery h c) = Inr rs" for rs
  proof -
    from check_battery_Inr[OF o] obtain es tr where
      ent: "entities h c = Inr es" and loop: "battery_loop h c es Unbound [] [] = (tr, Inr rs)"
      by blast
    have 1: "sorted ([] @ es)" using entities_sorted[OF ent] by simp
    have 2: "distinct ([] @ es)" using entities_distinct[OF ent d] by simp
    from battery_loop_sorted[OF loop 1 2] show ?thesis .
  qed
  from u b show ?thesis by blast
qed

theorem results_sorted_and_distinct_witness:
  "distinct (map fst (states example_host)) \<and>
   outcome (check_unavailable example_host example_cfg) = Inr [''light.a'', ''sensor.window''] \<and>
   sorted [''light.a'', ''sensor.window''] \<and> distinct [''light.a'', ''sensor.window''] \<and>
   outcome (check_battery example_host example_cfg) = Inr [''sensor.window''] \<and>
   sorted [''sensor.window''] \<and> distinct [''sensor.window'']"
proof -
  have d: "distinct (map fst (states example_host))" by code_simp
  have u: "outcome (check_unavailable example_host example_cfg) = Inr [''light.a'', ''sensor.window'']"
    by code_simp
  have b: "outcome (check_battery example_host example_cfg) = Inr [''sensor.window'']"
    by code_simp
  from results_sorted_and_distinct[of example_host example_cfg] d u b show ?thesis by blast
qed

subsection \<open>C4: excluded entities\<close>

lemma init_battery_exclude:
  "init_battery h a c tr = Inr (c1, t1) \<Longrightarrow> exclude c1 = exclude c"
  by (auto simp: init_battery_def split: option.splits sum.splits)

lemma init_unavailable_exclude:
  "init_unavailable h a c tr = Inr (c1, t1) \<Longrightarrow> exclude c1 = exclude c"
  by (auto simp: init_unavailable_def split: option.splits sum.splits if_splits)

lemma init_exclude_sets:
  "init_exclude a c = Inr c' \<Longrightarrow>
     \<exists>xs. exclude_items (arg_exclude a) = Inr xs \<and> exclude c' = Some (sort (remdups (EXCLUDE @ xs)))"
  by (auto simp: init_exclude_def split: sum.splits)

lemma initialize_exclude:
  assumes "exclude (cfg_now (initialize h a)) = Some ex"
  shows "\<exists>xs. exclude_items (arg_exclude a) = Inr xs \<and> ex = sort (remdups (EXCLUDE @ xs))"
proof (cases "init_battery h a (init_start a) []")
  case (Inl err)
  with assms show ?thesis by (simp add: initialize_def init_start_def)
next
  case b: (Inr p1)
  obtain c1 t1 where p1: "p1 = (c1, t1)" by (cases p1)
  have e1: "exclude c1 = None"
    using init_battery_exclude[of h a "init_start a" "[]" c1 t1] b p1
    by (simp add: init_start_def)
  show ?thesis
  proof (cases "init_unavailable h a c1 t1")
    case (Inl err)
    with assms b p1 e1 show ?thesis by (simp add: initialize_def)
  next
    case u: (Inr p2)
    obtain c2 t2 where p2: "p2 = (c2, t2)" by (cases p2)
    have e2: "exclude c2 = None"
      using init_unavailable_exclude[of h a c1 t1 c2 t2] u p2 e1 by simp
    show ?thesis
    proof (cases "init_exclude a c2")
      case (Inl err)
      with assms b p1 u p2 e2 show ?thesis by (simp add: initialize_def)
    next
      case x: (Inr c3)
      from init_exclude_sets[OF x] obtain xs where
        xs: "exclude_items (arg_exclude a) = Inr xs"
        "exclude c3 = Some (sort (remdups (EXCLUDE @ xs)))" by blast
      have "exclude (cfg_now (initialize h a)) = exclude c3"
        using b p1 u p2 x by (simp add: initialize_def Let_def split: sum.splits)
      with assms xs show ?thesis by simp
    qed
  qed
qed

lemma lower_all_strings: "lower_all (map PyStr ys) = Inr (map lower ys)"
  by (induction ys) simp_all

lemma send_notification_msg:
  "CallService s m \<in> set (send_notification c t rs) \<Longrightarrow>
     m = t @ '' ('' @ str_nat (length rs) @ ''): '' @ join '', '' rs"
  by (auto simp: send_notification_def split: if_splits)

lemma excluded_not_flagged_battery:
  assumes ex: "exclude c = Some ex" and e: "lower e \<in> set ex"
  shows "\<exists>flagged ls. e \<notin> set flagged
      \<and> (\<exists>es out. e \<notin> set es \<and> set flagged \<subseteq> set es
            \<and> battery_loop h c es Unbound [] [] = (ls, out))
      \<and> (effects (check_battery h c) = battery_header # ls
         \<or> effects (check_battery h c) = battery_header # ls
              @ send_notification c (ICON_battery @ '' Battery low'') flagged
              @ [print_result ''battery'' flagged ''low battery levels''])
      \<and> (\<forall>rs. outcome (check_battery h c) = Inr rs \<longrightarrow> rs = flagged)
      \<and> (\<forall>s m. CallService s m \<in> set (effects (check_battery h c)) \<longrightarrow>
            m = ICON_battery @ '' Battery low ('' @ str_nat (length flagged) @ ''): ''
                @ join '', '' flagged)"
proof -
  from entities_Some[OF ex] obtain es where ent: "entities h c = Inr es" by blast
  have ne: "e \<notin> set es" using entities_not_excluded[OF ent ex] e by blast
  from check_battery_shape[of h c] ent obtain ls out where
    loop: "battery_loop h c es Unbound [] [] = (ls, out)"
    and alt: "(\<exists>err. out = Inl err \<and> outcome (check_battery h c) = Inl err \<and>
                 effects (check_battery h c) = battery_header # ls)
          \<or> (\<exists>rs. out = Inr rs \<and> outcome (check_battery h c) = Inr rs \<and>
                 effects (check_battery h c) = battery_header # ls
                   @ send_notification c (ICON_battery @ '' Battery low'') rs
                   @ [print_result ''battery'' rs ''low battery levels''])"
    by auto
  from alt show ?thesis
  proof (elim disjE exE conjE)
    fix err
    assume o: "outcome (check_battery h c) = Inl err"
      and ef: "effects (check_battery h c) = battery_header # ls"
    have nc: "\<forall>s m. CallService s m \<notin> set (effects (check_battery h c))"
    proof (intro allI notI)
      fix s m assume "CallService s m \<in> set (effects (check_battery h c))"
      then have "CallService s m \<in> set (filter is_call (effects (check_battery h c)))" by simp
      with o show False by (simp add: check_battery_calls)
    qed
    have 1: "e \<notin> set ([]::string list)" by simp
    have 2: "\<exists>es out. e \<notin> set es \<and> set ([]::string list) \<subseteq> set es
            \<and> battery_loop h c es Unbound [] [] = (ls, out)"
      using ne loop by auto
    have 3: "\<forall>rs. outcome (check_battery h c) = Inr rs \<longrightarrow> rs = []" using o by simp
    from 1 2 ef 3 nc show ?thesis by (intro exI[of _ "[]"] exI[of _ ls]) blast
  next
    fix rs
    assume out: "out = Inr rs" and o: "outcome (check_battery h c) = Inr rs"
      and ef: "effects (check_battery h c) = battery_header # ls
                   @ send_notification c (ICON_battery @ '' Battery low'') rs
                   @ [print_result ''battery'' rs ''low battery levels'']"
    have sub: "set rs \<subseteq> set es" using battery_loop_subset[of h c es Unbound "[]" "[]" ls rs] loop out
      by simp
    with ne have 1: "e \<notin> set rs" by blast
    have 2: "\<exists>es out. e \<notin> set es \<and> set rs \<subseteq> set es
            \<and> battery_loop h c es Unbound [] [] = (ls, out)"
      using ne sub loop by auto
    have 3: "\<forall>rs'. outcome (check_battery h c) = Inr rs' \<longrightarrow> rs' = rs" using o by simp
    have 4: "\<forall>s m. CallService s m \<in> set (effects (check_battery h c)) \<longrightarrow>
            m = ICON_battery @ '' Battery low ('' @ str_nat (length rs) @ ''): ''
                @ join '', '' rs"
    proof (intro allI impI)
      fix s m assume "CallService s m \<in> set (effects (check_battery h c))"
      then have "CallService s m \<in> set (filter is_call (effects (check_battery h c)))" by simp
      with o have "CallService s m \<in> set (send_notification c (ICON_battery @ '' Battery low'') rs)"
        by (simp add: check_battery_calls)
      from send_notification_msg[OF this] show "m = ICON_battery @ '' Battery low ('' @ str_nat (length rs) @ ''): ''
                @ join '', '' rs" by simp
    qed
    from 1 2 ef 3 4 show ?thesis by (intro exI[of _ rs] exI[of _ ls]) blast
  qed
qed

lemma excluded_not_flagged_unavailable:
  assumes ex: "exclude c = Some ex" and e: "lower e \<in> set ex"
  shows "\<exists>flagged ls. e \<notin> set flagged
      \<and> (\<exists>es out. e \<notin> set es \<and> set flagged \<subseteq> set es
            \<and> unavailable_loop h c es Unbound [] [] = (ls, out))
      \<and> (effects (check_unavailable h c) = unavailable_header # ls
         \<or> effects (check_unavailable h c) = unavailable_header # ls
              @ send_notification c (APP_ICON @ '' Unavailable entities'') flagged
              @ [print_result ''unavailable'' flagged ''unavailable/unknown state''])
      \<and> (\<forall>rs. outcome (check_unavailable h c) = Inr rs \<longrightarrow> rs = flagged)
      \<and> (\<forall>s m. CallService s m \<in> set (effects (check_unavailable h c)) \<longrightarrow>
            m = APP_ICON @ '' Unavailable entities ('' @ str_nat (length flagged) @ ''): ''
                @ join '', '' flagged)"
proof -
  from entities_Some[OF ex] obtain es where ent: "entities h c = Inr es" by blast
  have ne: "e \<notin> set es" using entities_not_excluded[OF ent ex] e by blast
  from check_unavailable_shape[of h c] ent obtain ls out where
    loop: "unavailable_loop h c es Unbound [] [] = (ls, out)"
    and alt: "(\<exists>err. out = Inl err \<and> outcome (check_unavailable h c) = Inl err \<and>
                 effects (check_unavailable h c) = unavailable_header # ls)
          \<or> (\<exists>rs. out = Inr rs \<and> outcome (check_unavailable h c) = Inr rs \<and>
                 effects (check_unavailable h c) = unavailable_header # ls
                   @ send_notification c (APP_ICON @ '' Unavailable entities'') rs
                   @ [print_result ''unavailable'' rs ''unavailable/unknown state''])"
    by auto
  from alt show ?thesis
  proof (elim disjE exE conjE)
    fix err
    assume o: "outcome (check_unavailable h c) = Inl err"
      and ef: "effects (check_unavailable h c) = unavailable_header # ls"
    have nc: "\<forall>s m. CallService s m \<notin> set (effects (check_unavailable h c))"
    proof (intro allI notI)
      fix s m assume "CallService s m \<in> set (effects (check_unavailable h c))"
      then have "CallService s m \<in> set (filter is_call (effects (check_unavailable h c)))" by simp
      with o show False by (simp add: check_unavailable_calls)
    qed
    have 1: "e \<notin> set ([]::string list)" by simp
    have 2: "\<exists>es out. e \<notin> set es \<and> set ([]::string list) \<subseteq> set es
            \<and> unavailable_loop h c es Unbound [] [] = (ls, out)"
      using ne loop by auto
    have 3: "\<forall>rs. outcome (check_unavailable h c) = Inr rs \<longrightarrow> rs = []" using o by simp
    from 1 2 ef 3 nc show ?thesis by (intro exI[of _ "[]"] exI[of _ ls]) blast
  next
    fix rs
    assume out: "out = Inr rs" and o: "outcome (check_unavailable h c) = Inr rs"
      and ef: "effects (check_unavailable h c) = unavailable_header # ls
                   @ send_notification c (APP_ICON @ '' Unavailable entities'') rs
                   @ [print_result ''unavailable'' rs ''unavailable/unknown state'']"
    have sub: "set rs \<subseteq> set es" using unavailable_loop_subset[of h c es Unbound "[]" "[]" ls rs] loop out
      by simp
    with ne have 1: "e \<notin> set rs" by blast
    have 2: "\<exists>es out. e \<notin> set es \<and> set rs \<subseteq> set es
            \<and> unavailable_loop h c es Unbound [] [] = (ls, out)"
      using ne sub loop by auto
    have 3: "\<forall>rs'. outcome (check_unavailable h c) = Inr rs' \<longrightarrow> rs' = rs" using o by simp
    have 4: "\<forall>s m. CallService s m \<in> set (effects (check_unavailable h c)) \<longrightarrow>
            m = APP_ICON @ '' Unavailable entities ('' @ str_nat (length rs) @ ''): ''
                @ join '', '' rs"
    proof (intro allI impI)
      fix s m assume "CallService s m \<in> set (effects (check_unavailable h c))"
      then have "CallService s m \<in> set (filter is_call (effects (check_unavailable h c)))" by simp
      with o have "CallService s m \<in> set (send_notification c (APP_ICON @ '' Unavailable entities'') rs)"
        by (simp add: check_unavailable_calls)
      from send_notification_msg[OF this] show "m = APP_ICON @ '' Unavailable entities ('' @ str_nat (length rs) @ ''): ''
                @ join '', '' rs" by simp
    qed
    from 1 2 ef 3 4 show ?thesis by (intro exI[of _ rs] exI[of _ ls]) blast
  qed
qed

text \<open>
  C4. With the configuration left by \<^verbatim>\<open>initialize\<close>, the exclusion list is, as a set, the two
  defaults together with the lowercased configured ids. An entity whose lowercased id is in
  that set is not among the entities either loop iterates, so the log lines of the loop are
  produced without it, and it is not among the entities a run flags: these are the results
  of a completed run, and the message of any notification is built from exactly these.
\<close>

theorem excluded_entities_never_reported:
  assumes c: "c = cfg_now (initialize h0 a)"
    and ex: "exclude c = Some ex"
    and cfgd: "arg_exclude a = Some (Items (map PyStr configured))
               \<or> (arg_exclude a = None \<and> configured = [])"
    and e: "lower e \<in> set EXCLUDE \<union> lower ` set configured"
  shows "set ex = set EXCLUDE \<union> lower ` set configured
    \<and> (\<exists>flagged ls. e \<notin> set flagged
      \<and> (\<exists>es out. e \<notin> set es \<and> set flagged \<subseteq> set es
            \<and> battery_loop h c es Unbound [] [] = (ls, out))
      \<and> (effects (check_battery h c) = battery_header # ls
         \<or> effects (check_battery h c) = battery_header # ls
              @ send_notification c (ICON_battery @ '' Battery low'') flagged
              @ [print_result ''battery'' flagged ''low battery levels''])
      \<and> (\<forall>rs. outcome (check_battery h c) = Inr rs \<longrightarrow> rs = flagged)
      \<and> (\<forall>s m. CallService s m \<in> set (effects (check_battery h c)) \<longrightarrow>
            m = ICON_battery @ '' Battery low ('' @ str_nat (length flagged) @ ''): ''
                @ join '', '' flagged))
    \<and> (\<exists>flagged ls. e \<notin> set flagged
      \<and> (\<exists>es out. e \<notin> set es \<and> set flagged \<subseteq> set es
            \<and> unavailable_loop h c es Unbound [] [] = (ls, out))
      \<and> (effects (check_unavailable h c) = unavailable_header # ls
         \<or> effects (check_unavailable h c) = unavailable_header # ls
              @ send_notification c (APP_ICON @ '' Unavailable entities'') flagged
              @ [print_result ''unavailable'' flagged ''unavailable/unknown state''])
      \<and> (\<forall>rs. outcome (check_unavailable h c) = Inr rs \<longrightarrow> rs = flagged)
      \<and> (\<forall>s m. CallService s m \<in> set (effects (check_unavailable h c)) \<longrightarrow>
            m = APP_ICON @ '' Unavailable entities ('' @ str_nat (length flagged) @ ''): ''
                @ join '', '' flagged))"
proof -
  from ex c have "exclude (cfg_now (initialize h0 a)) = Some ex" by simp
  from initialize_exclude[OF this] obtain xs where
    xs: "exclude_items (arg_exclude a) = Inr xs" and exs: "ex = sort (remdups (EXCLUDE @ xs))"
    by blast
  from cfgd xs have "xs = map lower configured"
    by (auto simp: lower_all_strings)
  with exs have s: "set ex = set EXCLUDE \<union> lower ` set configured" by simp
  with e have e': "lower e \<in> set ex" by simp
  from s excluded_not_flagged_battery[OF ex e', of h]
    excluded_not_flagged_unavailable[OF ex e', of h]
  show ?thesis by (intro conjI)
qed

theorem excluded_entities_never_reported_witness:
  "example_cfg = cfg_now (initialize example_host example_args) \<and>
   exclude example_cfg = Some example_exclude \<and>
   arg_exclude example_args = Some (Items (map PyStr [''Sensor.Out_Of_Order''])) \<and>
   lower ''Binary_sensor.updater'' \<in> set EXCLUDE \<and>
   set example_exclude = set EXCLUDE \<union> lower ` set [''Sensor.Out_Of_Order''] \<and>
   in_bad_state example_host ''Binary_sensor.updater'' \<and>
   low_battery example_host example_cfg ''Binary_sensor.updater'' \<and>
   outcome (check_unavailable example_host example_cfg) = Inr [''light.a'', ''sensor.window''] \<and>
   outcome (check_battery example_host example_cfg) = Inr [''sensor.window''] \<and>
   (\<exists>flagged. ''Binary_sensor.updater'' \<notin> set flagged \<and>
      (\<forall>rs. outcome (check_battery example_host example_cfg) = Inr rs \<longrightarrow> rs = flagged))"
proof -
  have c: "example_cfg = cfg_now (initialize example_host example_args)" by code_simp
  have ex: "exclude example_cfg = Some example_exclude" by (simp add: example_cfg_def)
  have a: "arg_exclude example_args = Some (Items (map PyStr [''Sensor.Out_Of_Order'']))"
    by (simp add: example_args_def)
  have l: "lower ''Binary_sensor.updater'' \<in> set EXCLUDE" by code_simp
  have b: "in_bad_state example_host ''Binary_sensor.updater''" by code_simp
  have w: "low_battery example_host example_cfg ''Binary_sensor.updater''" by code_simp
  have u: "outcome (check_unavailable example_host example_cfg) = Inr [''light.a'', ''sensor.window'']"
    by code_simp
  have o: "outcome (check_battery example_host example_cfg) = Inr [''sensor.window'']"
    by code_simp
  from a have a': "arg_exclude example_args = Some (Items (map PyStr [''Sensor.Out_Of_Order'']))
               \<or> (arg_exclude example_args = None \<and> [''Sensor.Out_Of_Order''] = [])" ..
  from l have l': "lower ''Binary_sensor.updater''
      \<in> set EXCLUDE \<union> lower ` set [''Sensor.Out_Of_Order'']" by blast
  from excluded_entities_never_reported[OF c ex a' l', of example_host] c ex a l b w u o
  show ?thesis by blast
qed

subsection \<open>The blocks of initialize\<close>

lemma int_valued_lookup: "int_valued d \<Longrightarrow> map_of d k = Some v \<Longrightarrow> \<exists>n. v = PyInt n"
proof -
  assume iv: "int_valued d" and m: "map_of d k = Some v"
  from m have "(k, v) \<in> set d" by (rule map_of_SomeD)
  with iv have "case v of PyInt n \<Rightarrow> True | _ \<Rightarrow> False"
    by (auto simp: int_valued_def list_all_iff)
  then show ?thesis by (cases v) simp_all
qed

lemma interval_of_section:
  "(case interval_min_of h (Section d) dflt of Inl err \<Rightarrow> Inl err | Inr v \<Rightarrow> py_int h v)
     = configured_interval h d dflt"
proof (cases "map_of d ''interval_min''")
  case (Some v)
  then show ?thesis by (simp add: interval_min_of_def configured_interval_def dict_get_def)
next
  case None
  show ?thesis
  proof (cases "map_of d ''interval''")
    case n2: None
    with None show ?thesis
      by (simp add: interval_min_of_def configured_interval_def py_int_def)
  next
    case (Some v)
    with None show ?thesis
      by (simp add: interval_min_of_def configured_interval_def dict_get_def)
  qed
qed

lemma min_level_of_section:
  "(case min_level_of (Section d) of Inl err \<Rightarrow> Inl err | Inr w \<Rightarrow> py_int h w)
     = configured_min_level h d"
  by (simp add: configured_min_level_def py_int_def BATTERY_MIN_LEVEL_def split: option.splits)

lemma configured_interval_ints:
  assumes "int_valued d"
  shows "configured_interval h d dflt = Inr (spec_interval_min d dflt)"
proof (cases "map_of d ''interval_min''")
  case (Some v)
  with int_valued_lookup[OF assms Some] show ?thesis
    by (auto simp: configured_interval_def spec_interval_min_def py_int_def)
next
  case None
  show ?thesis
  proof (cases "map_of d ''interval''")
    case n2: None
    with None show ?thesis by (simp add: configured_interval_def spec_interval_min_def)
  next
    case (Some v)
    with int_valued_lookup[OF assms Some] None show ?thesis
      by (auto simp: configured_interval_def spec_interval_min_def py_int_def)
  qed
qed

lemma configured_min_level_ints:
  assumes "int_valued d"
  shows "\<exists>ml. configured_min_level h d = Inr ml"
proof (cases "map_of d ''min_level''")
  case None
  then show ?thesis by (simp add: configured_min_level_def)
next
  case (Some v)
  with int_valued_lookup[OF assms Some] show ?thesis
    by (auto simp: configured_min_level_def py_int_def)
qed

lemma init_battery_section:
  assumes "arg_battery a = Some (Section d)"
    and im: "configured_interval h d INTERVAL_BATTERY_MIN = Inr im"
    and ml: "configured_min_level h d = Inr ml"
  shows "\<exists>c'. init_battery h a c tr =
           Inr (c', tr @ [RunEvery CheckBattery (now h + 120) (im * 60)])"
proof -
  from im obtain v where v: "interval_min_of h (Section d) INTERVAL_BATTERY_MIN = Inr v"
    and vi: "py_int h v = Inr im"
    using interval_of_section[of h d INTERVAL_BATTERY_MIN] by (auto split: sum.splits)
  from ml obtain w where w: "min_level_of (Section d) = Inr w" and wi: "py_int h w = Inr ml"
    using min_level_of_section[where d=d and h=h] by (auto split: sum.splits simp del: min_level_of.simps)
  show ?thesis
    by (simp add: init_battery_def assms(1) v vi w wi del: min_level_of.simps)
qed

lemma init_battery_absent: "arg_battery a = None \<Longrightarrow> init_battery h a c tr = Inr (c, tr)"
  by (simp add: init_battery_def)

lemma init_unavailable_section:
  assumes "arg_unavailable a = Some (Section u)" and "u \<noteq> []"
    and im: "configured_interval h u INTERVAL_UNAVAILABLE_MIN = Inr im"
  shows "\<exists>c'. init_unavailable h a c tr =
           Inr (c', tr @ [RunEvery CheckUnavailable (now h + 120) (im * 60)])"
proof -
  from im obtain v where v: "interval_min_of h (Section u) INTERVAL_UNAVAILABLE_MIN = Inr v"
    and vi: "py_int h v = Inr im"
    using interval_of_section[of h u INTERVAL_UNAVAILABLE_MIN] by (auto split: sum.splits)
  show ?thesis by (simp add: init_unavailable_def assms(1,2) v vi)
qed


lemma init_unavailable_trace:
  "init_unavailable h a c tr = Inr (c', tr') \<Longrightarrow>
     filter (is_schedule CheckBattery) tr' = filter (is_schedule CheckBattery) tr"
  by (auto simp: init_unavailable_def split: if_splits option.splits sum.splits)

lemma init_warning_logs: "init_warning a = Inr logs \<Longrightarrow> filter (is_schedule k) logs = []"
  by (auto simp: init_warning_def split: option.splits sum.splits bool.splits)

lemma initialize_trace:
  assumes b: "init_battery h a (init_start a) [] = Inr (c1, t1)"
  shows "(\<exists>err. init_unavailable h a c1 t1 = Inl err \<and> trace (initialize h a) = t1)
       \<or> (\<exists>c2 t2 rest. init_unavailable h a c1 t1 = Inr (c2, t2)
             \<and> trace (initialize h a) = t2 @ rest \<and> (\<forall>k. filter (is_schedule k) rest = []))"
proof (cases "init_unavailable h a c1 t1")
  case (Inl err)
  with b show ?thesis by (simp add: initialize_def)
next
  case (Inr p)
  obtain c2 t2 where p: "p = (c2, t2)" by (cases p)
  have "\<exists>rest. trace (initialize h a) = t2 @ rest \<and> (\<forall>k. filter (is_schedule k) rest = [])"
  proof (cases "init_exclude a c2")
    case (Inl err)
    with b Inr p have "trace (initialize h a) = t2 @ []" by (simp add: initialize_def)
    then show ?thesis by (intro exI[of _ "[]"]) simp
  next
    case x: (Inr c3)
    show ?thesis
    proof (cases "init_warning a")
      case (Inl err)
      with b Inr p x have "trace (initialize h a)
          = t2 @ [NewADutils ''EnCh'' (c3\<lparr>units := Some UNITS\<rparr>) APP_ICON]"
        by (simp add: initialize_def Let_def)
      then show ?thesis by (intro exI[of _ "[NewADutils ''EnCh'' (c3\<lparr>units := Some UNITS\<rparr>) APP_ICON]"]) simp
    next
      case w: (Inr logs)
      with b Inr p x have "trace (initialize h a)
          = t2 @ ([NewADutils ''EnCh'' (c3\<lparr>units := Some UNITS\<rparr>) APP_ICON] @ logs)"
        by (simp add: initialize_def Let_def)
      moreover have "\<forall>k. filter (is_schedule k)
           ([NewADutils ''EnCh'' (c3\<lparr>units := Some UNITS\<rparr>) APP_ICON] @ logs) = []"
        using init_warning_logs[OF w] by simp
      ultimately show ?thesis by blast
    qed
  qed
  with Inr p show ?thesis by simp
qed



subsection \<open>C9: no battery section\<close>



subsection \<open>C5: scheduling\<close>

text \<open>
  C5 as stated fails for a battery key without a value: the membership test on \<^verbatim>\<open>None\<close> raises
  before anything is scheduled, also for a well-formed unavailable section.
\<close>

theorem empty_battery_section_counterexample:
  "arg_battery empty_battery_args = Some (Scalar PyNone) \<and>
   arg_unavailable empty_battery_args = Some (Section [(''interval_min'', PyInt 30)]) \<and>
   cfg_truthy (arg_unavailable empty_battery_args) \<and>
   trace (initialize example_host empty_battery_args) = [] \<and>
   failed (initialize example_host empty_battery_args) = Some TypeError"
  by code_simp

text \<open>
  C5, amended. If the battery section is a dict whose interval option and threshold convert
  with \<^verbatim>\<open>int\<close>, \<^verbatim>\<open>initialize\<close> schedules the battery check exactly once, first at 120 seconds
  after the current time and then every \<open>interval_min * 60\<close> seconds, where \<open>interval_min\<close> is
  \<^verbatim>\<open>int\<close> of the key \<^verbatim>\<open>interval_min\<close>, else \<^verbatim>\<open>int\<close> of the key \<^verbatim>\<open>interval\<close> times 60, else 180. The
  same holds for the unavailable check, with default 60, if its section is a non-empty dict
  whose interval option converts and the battery section is absent or a dict as above. For
  a dict of integers the options convert, to the value itself, the value times 60, or the
  default. Both schedules are made whether or not \<^verbatim>\<open>initialize\<close> then completes.
\<close>

theorem initialize_schedules_checks:
  "(\<forall>d im ml. arg_battery a = Some (Section d) \<and> configured_interval h d 180 = Inr im
        \<and> configured_min_level h d = Inr ml \<longrightarrow>
        filter (is_schedule CheckBattery) (trace (initialize h a)) =
          [RunEvery CheckBattery (now h + 120) (im * 60)])
   \<and> (\<forall>u im. arg_unavailable a = Some (Section u) \<and> u \<noteq> []
          \<and> configured_interval h u 60 = Inr im
          \<and> (arg_battery a = None
              \<or> (\<exists>d im' ml. arg_battery a = Some (Section d)
                    \<and> configured_interval h d 180 = Inr im'
                    \<and> configured_min_level h d = Inr ml)) \<longrightarrow>
        filter (is_schedule CheckUnavailable) (trace (initialize h a)) =
          [RunEvery CheckUnavailable (now h + 120) (im * 60)])
   \<and> (\<forall>d dflt. int_valued d \<longrightarrow>
          configured_interval h d dflt = Inr (spec_interval_min d dflt)
          \<and> (\<exists>ml. configured_min_level h d = Inr ml))"
proof -
  have bat: "filter (is_schedule CheckBattery) (trace (initialize h a)) =
          [RunEvery CheckBattery (now h + 120) (im * 60)]"
    if d: "arg_battery a = Some (Section d)" and im: "configured_interval h d 180 = Inr im"
      and ml: "configured_min_level h d = Inr ml" for d im ml
  proof -
    define r where "r = RunEvery CheckBattery (now h + 120) (im * 60)"
    from im have im': "configured_interval h d INTERVAL_BATTERY_MIN = Inr im"
      by (simp add: INTERVAL_BATTERY_MIN_def)
    from init_battery_section[OF d im' ml, of "init_start a" "[]"] obtain c1 where
      b: "init_battery h a (init_start a) [] = Inr (c1, [r])"
      by (auto simp: r_def)
    from initialize_trace[OF b] show ?thesis
    proof
      assume "\<exists>err. init_unavailable h a c1 [r] = Inl err \<and> trace (initialize h a) = [r]"
      then show ?thesis by (auto simp: r_def)
    next
      assume "\<exists>c2 t2 rest. init_unavailable h a c1 [r] = Inr (c2, t2)
             \<and> trace (initialize h a) = t2 @ rest \<and> (\<forall>k. filter (is_schedule k) rest = [])"
      then obtain c2 t2 rest where u: "init_unavailable h a c1 [r] = Inr (c2, t2)"
        and t: "trace (initialize h a) = t2 @ rest"
        and n: "\<forall>k. filter (is_schedule k) rest = []" by blast
      from init_unavailable_trace[OF u] have "filter (is_schedule CheckBattery) t2 = [r]"
        by (simp add: r_def)
      with t n show ?thesis by (simp add: r_def)
    qed
  qed
  have una: "filter (is_schedule CheckUnavailable) (trace (initialize h a)) =
          [RunEvery CheckUnavailable (now h + 120) (im * 60)]"
    if u: "arg_unavailable a = Some (Section u)" and ne: "u \<noteq> []"
      and im: "configured_interval h u 60 = Inr im"
      and b: "arg_battery a = None
              \<or> (\<exists>d im' ml. arg_battery a = Some (Section d)
                    \<and> configured_interval h d 180 = Inr im'
                    \<and> configured_min_level h d = Inr ml)"
    for u im
  proof -
    define r where "r = RunEvery CheckUnavailable (now h + 120) (im * 60)"
    from im have im': "configured_interval h u INTERVAL_UNAVAILABLE_MIN = Inr im"
      by (simp add: INTERVAL_UNAVAILABLE_MIN_def)
    from b obtain c1 t1 where
      ib: "init_battery h a (init_start a) [] = Inr (c1, t1)"
      and t1: "filter (is_schedule CheckUnavailable) t1 = []"
    proof
      assume "arg_battery a = None"
      from init_battery_absent[OF this, of h "init_start a" "[]"] that show ?thesis by simp
    next
      assume "\<exists>d im' ml. arg_battery a = Some (Section d)
                    \<and> configured_interval h d 180 = Inr im'
                    \<and> configured_min_level h d = Inr ml"
      then obtain d im' ml where d: "arg_battery a = Some (Section d)"
        and i: "configured_interval h d INTERVAL_BATTERY_MIN = Inr im'"
        and m: "configured_min_level h d = Inr ml"
        by (auto simp: INTERVAL_BATTERY_MIN_def)
      from init_battery_section[OF d i m, of "init_start a" "[]"] that show ?thesis by auto
    qed
    from init_unavailable_section[OF u ne im', of c1 t1] obtain c2 where
      iu: "init_unavailable h a c1 t1 = Inr (c2, t1 @ [r])"
      by (auto simp: r_def)
    from initialize_trace[OF ib] iu obtain rest where
      t: "trace (initialize h a) = (t1 @ [r]) @ rest"
      and n: "\<forall>k. filter (is_schedule k) rest = []" by auto
    from t n t1 show ?thesis by (simp add: r_def)
  qed
  have ints: "configured_interval h d dflt = Inr (spec_interval_min d dflt)
          \<and> (\<exists>ml. configured_min_level h d = Inr ml)" if "int_valued d" for d dflt
    using configured_interval_ints[OF that] configured_min_level_ints[OF that] by blast
  from bat una ints show ?thesis by blast
qed

theorem initialize_schedules_checks_witness:
  "arg_battery example_args = Some (Section [(''interval'', PyInt 2), (''min_level'', PyInt 20)]) \<and>
   configured_interval example_host [(''interval'', PyInt 2), (''min_level'', PyInt 20)] 180
     = Inr 120 \<and>
   configured_min_level example_host [(''interval'', PyInt 2), (''min_level'', PyInt 20)]
     = Inr 20 \<and>
   arg_unavailable example_args = Some (Section [(''interval_min'', PyInt 30)]) \<and>
   configured_interval example_host [(''interval_min'', PyInt 30)] 60 = Inr 30 \<and>
   filter (is_schedule CheckBattery) (trace (initialize example_host example_args)) =
     [RunEvery CheckBattery 1120 7200] \<and>
   filter (is_schedule CheckUnavailable) (trace (initialize example_host example_args)) =
     [RunEvery CheckUnavailable 1120 1800] \<and>
   failed (initialize example_host example_args) = None \<and>
   arg_battery float_args = Some (Section [(''interval'', PyFloat (Finite (1 / 2) ''0.5''))]) \<and>
   filter (is_schedule CheckBattery) (trace (initialize example_host float_args)) =
     [RunEvery CheckBattery 1120 1800]"
proof -
  have b: "arg_battery example_args
      = Some (Section [(''interval'', PyInt 2), (''min_level'', PyInt 20)])"
    by (simp add: example_args_def)
  have ib: "configured_interval example_host
      [(''interval'', PyInt 2), (''min_level'', PyInt 20)] 180 = Inr 120" by code_simp
  have mb: "configured_min_level example_host
      [(''interval'', PyInt 2), (''min_level'', PyInt 20)] = Inr 20" by code_simp
  have u: "arg_unavailable example_args = Some (Section [(''interval_min'', PyInt 30)])"
    by (simp add: example_args_def)
  have iu: "configured_interval example_host [(''interval_min'', PyInt 30)] 60 = Inr 30"
    by code_simp
  have n: "now example_host = 1000" by (simp add: example_host_def)
  have f: "failed (initialize example_host example_args) = None" by code_simp
  have fb: "arg_battery float_args
      = Some (Section [(''interval'', PyFloat (Finite (1 / 2) ''0.5''))])"
    by (simp add: float_args_def example_args_def)
  have fi: "configured_interval example_host
      [(''interval'', PyFloat (Finite (1 / 2) ''0.5''))] 180 = Inr 30" by code_simp
  have fm: "configured_min_level example_host
      [(''interval'', PyFloat (Finite (1 / 2) ''0.5''))] = Inr 20" by code_simp
  from initialize_schedules_checks[of example_args example_host] b ib mb
  have 1: "filter (is_schedule CheckBattery) (trace (initialize example_host example_args)) =
     [RunEvery CheckBattery 1120 7200]" by (simp add: n)
  from initialize_schedules_checks[of example_args example_host] b ib mb u iu
  have 2: "filter (is_schedule CheckUnavailable) (trace (initialize example_host example_args)) =
     [RunEvery CheckUnavailable 1120 1800]" by (simp add: n)
  from initialize_schedules_checks[of float_args example_host] fb fi fm
  have 3: "filter (is_schedule CheckBattery) (trace (initialize example_host float_args)) =
     [RunEvery CheckBattery 1120 1800]" by (simp add: n)
  from b ib mb u iu 1 2 f fb 3 show ?thesis by simp
qed

subsection \<open>Lookups that do not fail\<close>

lemma try_get_state_found:
  "\<not> lookup_fails h e \<Longrightarrow> try_get_state h a e = (ls, Inr a') \<Longrightarrow>
     ls = [] \<and> a' = Bound (fetched h e)"
  by (auto simp: try_get_state_def lookup_fails_def fetched_def split: fetch.splits if_splits)

lemma battery_body_Some:
  "battery_body h c (Bound (Some st)) e = Inr (Some l) \<Longrightarrow>
     truthy (battery_level st) \<and>
     (\<exists>m. min_level_cfg c = Some m \<and> py_le_int (battery_level st) m = Inr True)"
  by (auto simp: battery_body_def battery_level_def min_level_cfg_def Let_def
      split: option.splits if_splits sum.splits bool.splits)

lemma battery_body_None:
  "battery_body h c (Bound (Some st)) e = Inr None \<Longrightarrow>
     \<not> truthy (battery_level st) \<or>
     (\<exists>m. min_level_cfg c = Some m \<and> py_le_int (battery_level st) m = Inr False)"
  by (auto simp: battery_body_def battery_level_def min_level_cfg_def Let_def
      split: option.splits if_splits sum.splits bool.splits)

lemma battery_body_low:
  assumes "battery_body h c (Bound (fetched h e)) e = Inr r"
  shows "r \<noteq> None \<longleftrightarrow> low_battery h c e"
proof (cases "fetched h e")
  case None
  with assms show ?thesis by (simp add: battery_body_def)
next
  case (Some st)
  show ?thesis
  proof (cases r)
    case n: None
    from battery_body_None[of h c st e] assms Some n
    have "\<not> low_battery h c e"
      by (auto simp: low_battery_def at_most_min_level_def)
    with n show ?thesis by simp
  next
    case s: (Some l)
    from battery_body_Some[of h c st e l] assms Some s
    have "low_battery h c e"
      by (auto simp: low_battery_def at_most_min_level_def)
    with s show ?thesis by simp
  qed
qed

lemma battery_step_found:
  assumes nf: "\<not> lookup_fails h e" and s: "battery_step h c a e = (ls, Inr (a', fl))"
  shows "fl = low_battery h c e \<and>
         (if fl then \<exists>l. ls = [l] \<and> battery_body h c (Bound (fetched h e)) e = Inr (Some l)
          else ls = [])"
proof -
  obtain ls0 r0 where t: "try_get_state h a e = (ls0, r0)" by force
  show ?thesis
  proof (cases r0)
    case (Inl err)
    with s t show ?thesis by (simp add: battery_step_def)
  next
    case (Inr a1)
    from try_get_state_found[OF nf] t Inr have l0: "ls0 = []" and a1: "a1 = Bound (fetched h e)"
      by auto
    show ?thesis
    proof (cases "battery_body h c a1 e")
      case (Inl err)
      with s t Inr show ?thesis by (simp add: battery_step_def)
    next
      case b: (Inr r)
      from battery_body_low[of h c e r] b a1 have low: "r \<noteq> None \<longleftrightarrow> low_battery h c e"
        by simp
      show ?thesis
      proof (cases r)
        case None
        with s t Inr b l0 low show ?thesis by (auto simp: battery_step_def)
      next
        case (Some l)
        with s t Inr b l0 low a1 show ?thesis by (auto simp: battery_step_def)
      qed
    qed
  qed
qed

lemma battery_loop_found:
  "\<forall>e \<in> set es. \<not> lookup_fails h e \<Longrightarrow>
   battery_loop h c es a rs tr = (tr', Inr rs') \<Longrightarrow>
     rs' = rs @ filter (low_battery h c) es \<and>
     (\<exists>ls. tr' = tr @ ls \<and>
        map (\<lambda>e. battery_body h c (Bound (fetched h e)) e) (filter (low_battery h c) es)
          = map (\<lambda>l. Inr (Some l)) ls)"
proof (induction es arbitrary: a rs tr)
  case Nil
  then show ?case by simp
next
  case (Cons e es)
  obtain ls r where s: "battery_step h c a e = (ls, r)" by force
  show ?case
  proof (cases r)
    case (Inl err)
    with Cons.prems(2) s show ?thesis by simp
  next
    case (Inr p)
    obtain a' fl where p: "p = (a', fl)" by (cases p)
    from Cons.prems(1) have nf: "\<not> lookup_fails h e" and rest: "\<forall>e \<in> set es. \<not> lookup_fails h e"
      by simp_all
    from battery_step_found[OF nf] s Inr p have fl: "fl = low_battery h c e"
      and lines: "if fl then \<exists>l. ls = [l] \<and> battery_body h c (Bound (fetched h e)) e = Inr (Some l)
          else ls = []" by auto
    from Cons.prems(2) s Inr p have
      loop: "battery_loop h c es a' (if fl then rs @ [e] else rs) (tr @ ls) = (tr', Inr rs')"
      by simp
    from Cons.IH[OF rest loop] obtain ls' where
      r1: "rs' = (if fl then rs @ [e] else rs) @ filter (low_battery h c) es"
      and t1: "tr' = (tr @ ls) @ ls'"
      and m1: "map (\<lambda>e. battery_body h c (Bound (fetched h e)) e) (filter (low_battery h c) es)
          = map (\<lambda>l. Inr (Some l)) ls'" by blast
    show ?thesis
    proof (cases fl)
      case True
      with lines obtain l where l: "ls = [l]"
        "battery_body h c (Bound (fetched h e)) e = Inr (Some l)" by auto
      from True fl r1 have "rs' = rs @ filter (low_battery h c) (e # es)" by simp
      moreover from t1 l have "tr' = tr @ (l # ls')" by simp
      moreover from True fl l m1 have
        "map (\<lambda>e. battery_body h c (Bound (fetched h e)) e) (filter (low_battery h c) (e # es))
          = map (\<lambda>l. Inr (Some l)) (l # ls')" by simp
      ultimately show ?thesis by blast
    next
      case False
      with lines have l: "ls = []" by simp
      from False fl r1 have "rs' = rs @ filter (low_battery h c) (e # es)" by simp
      moreover from t1 l have "tr' = tr @ ls'" by simp
      moreover from False fl m1 have
        "map (\<lambda>e. battery_body h c (Bound (fetched h e)) e) (filter (low_battery h c) (e # es))
          = map (\<lambda>l. Inr (Some l)) ls'" by simp
      ultimately show ?thesis by blast
    qed
  qed
qed

subsection \<open>C1: what the battery check reports\<close>

text \<open>
  C1 as stated fails at a battery level of 0: in the example, \<^verbatim>\<open>sensor.door\<close> is not excluded
  and its level 0 is at most the threshold 20, and the run completes without it. It also
  fails in a run that an exception ends: the comparison of the text \<^verbatim>\<open>low\<close> with the threshold
  raises \<^verbatim>\<open>TypeError\<close> at \<^verbatim>\<open>sensor.a\<close>, and \<^verbatim>\<open>sensor.b\<close>, not excluded and with a level of 5,
  is never looked at and never logged.
\<close>

theorem battery_level_zero_counterexample:
  "outcome (check_battery example_host example_cfg) = Inr [''sensor.window''] \<and>
   ''sensor.door'' \<in> set (map fst (states example_host)) \<and>
   get_state_all example_host ''sensor.door'' = Found st_door \<and>
   battery_level st_door = PyInt 0 \<and>
   min_level_cfg example_cfg = Some 20 \<and>
   at_most_min_level example_host example_cfg ''sensor.door'' \<and>
   excluded example_cfg ''sensor.door'' = False \<and>
   lookup_fails example_host ''sensor.door'' = False \<and>
   ''sensor.door'' \<notin> set [''sensor.window''] \<and>
   outcome (check_battery string_level_host example_cfg) = Inl TypeError \<and>
   effects (check_battery string_level_host example_cfg) = [battery_header] \<and>
   get_state_all string_level_host ''sensor.a'' = Found st_label \<and>
   battery_level st_label = PyStr ''low'' \<and>
   get_state_all string_level_host ''sensor.b'' = Found st_updater \<and>
   battery_level st_updater = PyInt 5 \<and>
   at_most_min_level string_level_host example_cfg ''sensor.b'' \<and>
   excluded example_cfg ''sensor.b'' = False"
  by code_simp

text \<open>
  C1, amended. In a run of the battery check that ends without an exception and in which no
  state lookup of a non-excluded entity raised \<^verbatim>\<open>TypeError\<close>, an entity is in the results
  exactly when it is an entity of the host, it is not excluded, and the battery level of its
  state is truthy (present and not zero) and at most the threshold; and the trace is the
  header line, one log line per result (the line the loop body logs for the entity and its
  state), the notification and the summary.
\<close>

theorem check_battery_reports_low:
  assumes fin: "outcome (check_battery h c) = Inr rs"
    and ok: "\<forall>e \<in> set (map fst (states h)). \<not> excluded c e \<longrightarrow> \<not> lookup_fails h e"
  shows "(\<forall>e. e \<in> set rs \<longleftrightarrow>
             e \<in> set (map fst (states h)) \<and> \<not> excluded c e \<and> low_battery h c e)
      \<and> (\<exists>ls. effects (check_battery h c) =
             battery_header # ls
             @ send_notification c (ICON_battery @ '' Battery low'') rs
             @ [print_result ''battery'' rs ''low battery levels'']
           \<and> map (\<lambda>e. battery_body h c (Bound (fetched h e)) e) rs
               = map (\<lambda>l. Inr (Some l)) ls)"
proof -
  from check_battery_Inr[OF fin] obtain es tr where
    ent: "entities h c = Inr es"
    and loop: "battery_loop h c es Unbound [] [] = (tr, Inr rs)"
    and eff: "effects (check_battery h c) = battery_header # tr
            @ send_notification c (ICON_battery @ '' Battery low'') rs
            @ [print_result ''battery'' rs ''low battery levels'']" by blast
  have mem: "\<And>e. e \<in> set es \<longleftrightarrow> e \<in> set (map fst (states h)) \<and> \<not> excluded c e"
    by (rule entities_members[OF ent])
  with ok have "\<forall>e \<in> set es. \<not> lookup_fails h e" by blast
  from battery_loop_found[OF this loop] have
    rs: "rs = filter (low_battery h c) es"
    and lines: "map (\<lambda>e. battery_body h c (Bound (fetched h e)) e) rs
          = map (\<lambda>l. Inr (Some l)) tr" by auto
  from rs mem have "\<forall>e. e \<in> set rs \<longleftrightarrow>
             e \<in> set (map fst (states h)) \<and> \<not> excluded c e \<and> low_battery h c e" by auto
  with eff lines show ?thesis by blast
qed

lemma example_lookups: "lookup_fails example_host e = False"
  by (simp add: lookup_fails_def example_host_def lookup_in_def split: option.splits)

theorem check_battery_reports_low_witness:
  "outcome (check_battery example_host example_cfg) = Inr [''sensor.window''] \<and>
   low_battery example_host example_cfg ''sensor.window'' \<and>
   excluded example_cfg ''sensor.window'' = False \<and>
   low_battery example_host example_cfg ''Binary_sensor.updater'' \<and>
   excluded example_cfg ''Binary_sensor.updater'' \<and>
   low_battery example_host example_cfg ''sensor.door'' = False \<and>
   (\<forall>e. e \<in> set [''sensor.window''] \<longleftrightarrow>
         e \<in> set (map fst (states example_host)) \<and> \<not> excluded example_cfg e
         \<and> low_battery example_host example_cfg e)"
proof -
  have o: "outcome (check_battery example_host example_cfg) = Inr [''sensor.window'']"
    by code_simp
  have a: "low_battery example_host example_cfg ''sensor.window''" by code_simp
  have b: "excluded example_cfg ''sensor.window'' = False" by code_simp
  have c: "low_battery example_host example_cfg ''Binary_sensor.updater''" by code_simp
  have d: "excluded example_cfg ''Binary_sensor.updater''" by code_simp
  have e: "low_battery example_host example_cfg ''sensor.door'' = False" by code_simp
  have ok: "\<forall>e \<in> set (map fst (states example_host)).
      \<not> excluded example_cfg e \<longrightarrow> \<not> lookup_fails example_host e"
    by (simp add: example_lookups)
  from check_battery_reports_low[OF o ok] o a b c d e show ?thesis by blast
qed

subsection \<open>C2: what the unavailable check reports\<close>

lemma unavailable_body_bad:
  assumes "unavailable_body h c (Bound (fetched h e)) rs e = Inr r"
  shows "r \<noteq> None \<longleftrightarrow> in_bad_state h e \<and> e \<notin> set rs"
proof (cases "fetched h e")
  case None
  with assms show ?thesis by (simp add: unavailable_body_def)
next
  case (Some st)
  with assms show ?thesis
    by (auto simp: unavailable_body_def in_bad_state_def BAD_STATES_def
        split: if_splits sum.splits option.splits)
qed

lemma unavailable_step_found:
  assumes nf: "\<not> lookup_fails h e" and s: "unavailable_step h c a rs e = (ls, Inr (a', fl))"
  shows "fl = (in_bad_state h e \<and> e \<notin> set rs)"
proof -
  obtain ls0 r0 where t: "try_get_state h a e = (ls0, r0)" by force
  show ?thesis
  proof (cases r0)
    case (Inl err)
    with s t show ?thesis by (simp add: unavailable_step_def)
  next
    case (Inr a1)
    from try_get_state_found[OF nf] t Inr have a1: "a1 = Bound (fetched h e)" by auto
    show ?thesis
    proof (cases "unavailable_body h c a1 rs e")
      case (Inl err)
      with s t Inr show ?thesis by (simp add: unavailable_step_def)
    next
      case b: (Inr r)
      from unavailable_body_bad[of h c e rs r] b a1
      have bad: "r \<noteq> None \<longleftrightarrow> in_bad_state h e \<and> e \<notin> set rs" by simp
      show ?thesis
      proof (cases r)
        case None
        with s t Inr b bad show ?thesis by (auto simp: unavailable_step_def)
      next
        case (Some l)
        with s t Inr b bad show ?thesis by (auto simp: unavailable_step_def)
      qed
    qed
  qed
qed

lemma unavailable_loop_found:
  "\<forall>e \<in> set es. \<not> lookup_fails h e \<Longrightarrow>
   unavailable_loop h c es a rs tr = (tr', Inr rs') \<Longrightarrow>
     set rs' = set rs \<union> {e \<in> set es. in_bad_state h e}"
proof (induction es arbitrary: a rs tr)
  case Nil
  then show ?case by simp
next
  case (Cons e es)
  obtain ls r where s: "unavailable_step h c a rs e = (ls, r)" by force
  show ?case
  proof (cases r)
    case (Inl err)
    with Cons.prems(2) s show ?thesis by simp
  next
    case (Inr p)
    obtain a' fl where p: "p = (a', fl)" by (cases p)
    from Cons.prems(1) have nf: "\<not> lookup_fails h e" and rest: "\<forall>e \<in> set es. \<not> lookup_fails h e"
      by simp_all
    from unavailable_step_found[OF nf] s Inr p
    have fl: "fl = (in_bad_state h e \<and> e \<notin> set rs)" by simp
    from Cons.prems(2) s Inr p have
      loop: "unavailable_loop h c es a' (if fl then rs @ [e] else rs) (tr @ ls) = (tr', Inr rs')"
      by simp
    from Cons.IH[OF rest loop] have
      "set rs' = set (if fl then rs @ [e] else rs) \<union> {e \<in> set es. in_bad_state h e}" .
    with fl show ?thesis by auto
  qed
qed

text \<open>
  When no lookup fails, the results of a completed run are exactly the entities of the
  host that are not excluded and whose state is unavailable or unknown.
\<close>

lemma check_unavailable_without_failures:
  assumes fin: "outcome (check_unavailable h c) = Inr rs"
    and ok: "\<forall>e \<in> set (map fst (states h)). \<not> excluded c e \<longrightarrow> \<not> lookup_fails h e"
  shows "e \<in> set rs \<longleftrightarrow>
           e \<in> set (map fst (states h)) \<and> \<not> excluded c e \<and> in_bad_state h e"
proof -
  from check_unavailable_Inr[OF fin] obtain es tr where
    ent: "entities h c = Inr es"
    and loop: "unavailable_loop h c es Unbound [] [] = (tr, Inr rs)" by blast
  have mem: "\<And>e. e \<in> set es \<longleftrightarrow> e \<in> set (map fst (states h)) \<and> \<not> excluded c e"
    by (rule entities_members[OF ent])
  with ok have "\<forall>e \<in> set es. \<not> lookup_fails h e" by blast
  from unavailable_loop_found[OF this loop] mem show ?thesis by auto
qed

text \<open>
  C2 fails when a lookup in the loop raises \<^verbatim>\<open>TypeError\<close>: the handler logs the failure and
  the body goes on with the state of the entity before. Here \<^verbatim>\<open>sensor.b\<close> is on, its lookup
  fails after that of the unavailable \<^verbatim>\<open>sensor.a\<close>, and it is in the results and in the
  notification. When the first lookup fails the variable is unbound and the run ends in a
  \<^verbatim>\<open>NameError\<close>.
\<close>

theorem failed_lookup_flags_entity_that_is_on:
  "get_state_all failing_host ''sensor.b'' = Raises TypeError ''not subscriptable'' \<and>
   map_of (states failing_host) ''sensor.b'' = Some st_door \<and>
   get_state_again failing_host ''sensor.b'' = Found st_door \<and>
   state st_door = PyStr ''on'' \<and>
   excluded example_cfg ''sensor.b'' = False \<and>
   outcome (check_unavailable failing_host example_cfg) = Inr [''sensor.a'', ''sensor.b''] \<and>
   effects (check_unavailable failing_host example_cfg) ! 2
     = Log ''Failed to get state for sensor.b: not subscriptable'' None \<and>
   filter is_call (effects (check_unavailable failing_host example_cfg))
     = [CallService ''notify/me'' (APP_ICON @ '' Unavailable entities (2): sensor.a, sensor.b'')] \<and>
   outcome (check_unavailable
              (failing_host\<lparr>get_state_all := (\<lambda>e. Raises TypeError ''not subscriptable'')\<rparr>)
              example_cfg) = Inl NameError"
  by code_simp

subsection \<open>C8: falsy battery levels\<close>

text \<open>
  When no lookup fails, an entity whose battery level is 0, missing or otherwise falsy is
  in the results of no completed run.
\<close>

lemma falsy_level_without_failures:
  assumes fin: "outcome (check_battery h c) = Inr rs"
    and ok: "\<forall>e \<in> set (map fst (states h)). \<not> excluded c e \<longrightarrow> \<not> lookup_fails h e"
    and st: "get_state_all h e = Found st"
    and lvl: "\<not> truthy (battery_level st)"
  shows "e \<notin> set rs"
proof -
  from check_battery_Inr[OF fin] obtain es tr where
    ent: "entities h c = Inr es"
    and loop: "battery_loop h c es Unbound [] [] = (tr, Inr rs)" by blast
  have mem: "\<And>e. e \<in> set es \<longleftrightarrow> e \<in> set (map fst (states h)) \<and> \<not> excluded c e"
    by (rule entities_members[OF ent])
  with ok have "\<forall>e \<in> set es. \<not> lookup_fails h e" by blast
  from battery_loop_found[OF this loop] have "rs = filter (low_battery h c) es" by simp
  moreover from st lvl have "\<not> low_battery h c e" by (simp add: low_battery_def fetched_def)
  ultimately show ?thesis by simp
qed

text \<open>
  C8 fails when a lookup in the loop raises \<^verbatim>\<open>TypeError\<close>: \<^verbatim>\<open>sensor.b\<close> has a battery level of
  0, its lookup fails after that of \<^verbatim>\<open>sensor.a\<close> with level 15, and it is reported as low with
  the level 15 of the entity before.
\<close>

theorem failed_lookup_reports_level_zero:
  "get_state_all failing_host ''sensor.b'' = Raises TypeError ''not subscriptable'' \<and>
   map_of (states failing_host) ''sensor.b'' = Some st_door \<and>
   get_state_again failing_host ''sensor.b'' = Found st_door \<and>
   battery_level st_door = PyInt 0 \<and>
   truthy (battery_level st_door) = False \<and>
   outcome (check_battery failing_host example_cfg) = Inr [''sensor.a'', ''sensor.b''] \<and>
   effects (check_battery failing_host example_cfg) ! 3
     = Log (''sensor.b has low '' @ hl (''battery '' @ arrow @ '' '' @ hl ''15'')
            @ ''% | last update: 03:04:05'') (Some ICON_battery) \<and>
   filter is_call (effects (check_battery failing_host example_cfg))
     = [CallService ''notify/me'' (ICON_battery @ '' Battery low (2): sensor.a, sensor.b'')]"
  by code_simp

end
